theory Spec2Isabelle
  imports Main "HOL-Library.AList" "HOL-Library.Product_Lexorder"
begin

section \<open>getFromSahamyab.py: the Sahamyab scraper\<close>

text \<open>
  A shallow embedding of \<^verbatim>\<open>getFromSahamyab.py\<close>. Python strings are byte lists (UTF-8),
  Python exceptions are values of \<open>exn\<close>, and everything the script does to its
  surroundings (the two HTTP endpoints, the configuration file, the CSV destination, the
  log, a pending Ctrl-C) is a field of one explicit machine state.
\<close>

subsection \<open>Exceptions\<close>

datatype rt_msg = UnableToAcquireToken | DataCorrupted | BadResponse nat

datatype exn =
    KeyboardInterrupt
  | RuntimeError rt_msg
  | IndexError
  | KeyError string
  | ValueError
  | OverflowError
  | TypeError
  | FileNotFoundError
  | PermissionError
  | JSONDecodeError
  | ConnectionError
  | EmptyDataError

text \<open>\<^verbatim>\<open>except Exception\<close> catches every exception of the model but KeyboardInterrupt,
  which derives from BaseException only.\<close>

definition is_Exception :: "exn \<Rightarrow> bool" where
  "is_Exception e = (e \<noteq> KeyboardInterrupt)"

subsection \<open>datetime.datetime\<close>

record datetime =
  year :: nat
  month :: nat
  day :: nat
  hour :: nat
  minute :: nat
  second :: nat
  microsecond :: nat

definition dt_key :: "datetime \<Rightarrow> nat \<times> nat \<times> nat \<times> nat \<times> nat \<times> nat \<times> nat" where
  "dt_key t = (year t, month t, day t, hour t, minute t, second t, microsecond t)"

text \<open>Naive datetimes compare field by field, most significant first.\<close>

definition dt_gt :: "datetime \<Rightarrow> datetime \<Rightarrow> bool" where
  "dt_gt a b = (dt_key b < dt_key a)"

definition is_leap :: "nat \<Rightarrow> bool" where
  "is_leap y = (y mod 4 = 0 \<and> (y mod 100 \<noteq> 0 \<or> y mod 400 = 0))"

definition days_in_month :: "nat \<Rightarrow> nat \<Rightarrow> nat" where
  "days_in_month y m =
     (if m = 2 then (if is_leap y then 29 else 28)
      else if m = 4 \<or> m = 6 \<or> m = 9 \<or> m = 11 then 30 else 31)"

text \<open>An argument of the constructor is converted to a C \<^verbatim>\<open>int\<close>.\<close>

definition fits_c_int :: "int \<Rightarrow> bool" where
  "fits_c_int n = (- (2 ^ 31) \<le> n \<and> n < 2 ^ 31)"

text \<open>The constructor \<^verbatim>\<open>dt.datetime(y, m, d, hour=hh, minute=mm, second=ss)\<close>: it raises
  OverflowError when an argument does not fit a C \<^verbatim>\<open>int\<close>, and ValueError when a field
  is out of range (MINYEAR is 1, MAXYEAR is 9999).\<close>

definition mk_datetime :: "int \<Rightarrow> int \<Rightarrow> int \<Rightarrow> int \<Rightarrow> int \<Rightarrow> int \<Rightarrow> exn + datetime" where
  "mk_datetime y m d hh mm ss =
     (if \<not> list_all fits_c_int [y, m, d, hh, mm, ss] then Inl OverflowError
      else if 1 \<le> y \<and> y \<le> 9999 \<and> 1 \<le> m \<and> m \<le> 12
         \<and> 1 \<le> d \<and> d \<le> int (days_in_month (nat y) (nat m))
         \<and> 0 \<le> hh \<and> hh \<le> 23 \<and> 0 \<le> mm \<and> mm \<le> 59 \<and> 0 \<le> ss \<and> ss \<le> 59
      then Inr \<lparr>year = nat y, month = nat m, day = nat d,
                hour = nat hh, minute = nat mm, second = nat ss, microsecond = 0\<rparr>
      else Inl ValueError)"

subsection \<open>Strings: \<^verbatim>\<open>str.split\<close> and \<^verbatim>\<open>int\<close>\<close>

text \<open>\<^verbatim>\<open>s.split(c)\<close> with a one-character separator: never an empty list.\<close>

fun split_on :: "char \<Rightarrow> string \<Rightarrow> string list" where
  "split_on c [] = [[]]"
| "split_on c (x # xs) =
     (if x = c then [] # split_on c xs
      else (case split_on c xs of [] \<Rightarrow> [[x]] | p # ps \<Rightarrow> (x # p) # ps))"

text \<open>\<^verbatim>\<open>xs[i]\<close> for a literal index \<open>i \<ge> 0\<close>: IndexError out of range.\<close>

definition index :: "'a list \<Rightarrow> nat \<Rightarrow> exn + 'a" where
  "index xs i = (if i < length xs then Inr (xs ! i) else Inl IndexError)"

definition is_digit :: "char \<Rightarrow> bool" where
  "is_digit c = (c \<in> set ''0123456789'')"

definition digit_val :: "char \<Rightarrow> nat" where
  "digit_val c = of_char c - of_char CHR ''0''"

text \<open>The whitespace \<^verbatim>\<open>int\<close> skips around an ASCII literal: tab, line feed, vertical tab,
  form feed, carriage return and the space.\<close>

definition is_space :: "char \<Rightarrow> bool" where
  "is_space c = (let n = (of_char c :: nat) in (9 \<le> n \<and> n \<le> 13) \<or> n = 32)"

definition strip :: "string \<Rightarrow> string" where
  "strip s = rev (dropWhile is_space (rev (dropWhile is_space s)))"

text \<open>The digits of an integer literal, most significant first; single underscores may
  separate digits. \<open>prev\<close> tells whether the character before was a digit.\<close>

fun digits_value :: "bool \<Rightarrow> nat \<Rightarrow> string \<Rightarrow> nat option" where
  "digits_value prev acc [] = (if prev then Some acc else None)"
| "digits_value prev acc (c # cs) =
     (if is_digit c then digits_value True (10 * acc + digit_val c) cs
      else if c = CHR ''_'' \<and> prev then digits_value False acc cs
      else None)"

text \<open>\<^verbatim>\<open>int(s)\<close> for a string of ASCII characters, as CPython 3.11 does it: surrounding
  whitespace, one optional sign, decimal digits, of which there are at most 4300 (the
  default limit of the conversion; leading zeros count, underscores do not). ValueError
  otherwise. (Digits and spaces outside ASCII, which Python accepts as well, are not
  decoded from the bytes here and give ValueError: the strings that are parsed are taken
  to be ASCII.)\<close>

definition py_int :: "string \<Rightarrow> exn + int" where
  "py_int s =
     (let t = strip s;
          (neg, body) = (case t of
                           c # cs \<Rightarrow> if c = CHR ''-'' then (True, cs)
                                     else if c = CHR ''+'' then (False, cs) else (False, t)
                         | [] \<Rightarrow> (False, t))
      in case digits_value False 0 body of
           None \<Rightarrow> Inl ValueError
         | Some n \<Rightarrow>
             if 4300 < length (filter is_digit body) then Inl ValueError
             else Inr (if neg then - int n else int n))"

subsection \<open>to_datetime\<close>

definition bind_exn :: "exn + 'a \<Rightarrow> ('a \<Rightarrow> exn + 'b) \<Rightarrow> exn + 'b" where
  "bind_exn m f = (case m of Inl e \<Rightarrow> Inl e | Inr a \<Rightarrow> f a)"

text \<open>\<^verbatim>\<open>int(xs[i])\<close>: the index is evaluated first.\<close>

definition int_at :: "string list \<Rightarrow> nat \<Rightarrow> exn + int" where
  "int_at xs i = bind_exn (index xs i) py_int"

definition to_datetime :: "string \<Rightarrow> exn + datetime" where
  "to_datetime s =
     (let dparts = split_on CHR ''T'' s in
      bind_exn (index dparts 0) (\<lambda>d0.
      let date = split_on CHR ''-'' d0 in
      bind_exn (index dparts 1) (\<lambda>d1.
      let time_part = split_on CHR '':'' d1 in
      bind_exn (int_at date 0) (\<lambda>y.
      bind_exn (int_at date 1) (\<lambda>m.
      bind_exn (int_at date 2) (\<lambda>d.
      bind_exn (int_at time_part 0) (\<lambda>hh.
      bind_exn (int_at time_part 1) (\<lambda>mm.
      bind_exn (index time_part 2) (\<lambda>s0.
      bind_exn (int_at (split_on CHR ''Z'' s0) 0) (\<lambda>ss.
      mk_datetime y m d hh mm ss))))))))))"

subsection \<open>\<^verbatim>\<open>datetime.strptime(s, "%Y-%m-%d")\<close>\<close>

text \<open>The directives are matched as the regular expressions of the standard library do:
  \<^verbatim>\<open>%Y\<close> is four digits, \<^verbatim>\<open>%m\<close> is \<^verbatim>\<open>1[0-2]|0[1-9]|[1-9]\<close>, \<^verbatim>\<open>%d\<close> is
  \<^verbatim>\<open>3[01]|[12]\d|0[1-9]|[1-9]| [1-9]\<close>, and the whole string has to be consumed. Each
  function lists the ways its directive can match a prefix, in the order of the
  alternatives, with the rest of the string.\<close>

definition in_range :: "char \<Rightarrow> char \<Rightarrow> char \<Rightarrow> bool" where
  "in_range lo hi c = ((of_char lo :: nat) \<le> of_char c \<and> (of_char c :: nat) \<le> of_char hi)"

definition match_month :: "string \<Rightarrow> (nat \<times> string) list" where
  "match_month s =
     (case s of
        [] \<Rightarrow> []
      | a # r \<Rightarrow>
          (case r of
             [] \<Rightarrow> []
           | b # r' \<Rightarrow>
               (if a = CHR ''1'' \<and> in_range CHR ''0'' CHR ''2'' b
                then [(10 + digit_val b, r')] else []) @
               (if a = CHR ''0'' \<and> in_range CHR ''1'' CHR ''9'' b
                then [(digit_val b, r')] else [])) @
          (if in_range CHR ''1'' CHR ''9'' a then [(digit_val a, r)] else []))"

definition match_day :: "string \<Rightarrow> (nat \<times> string) list" where
  "match_day s =
     (case s of
        [] \<Rightarrow> []
      | a # r \<Rightarrow>
          (case r of
             [] \<Rightarrow> []
           | b # r' \<Rightarrow>
               (if a = CHR ''3'' \<and> in_range CHR ''0'' CHR ''1'' b
                then [(30 + digit_val b, r')] else []) @
               (if in_range CHR ''1'' CHR ''2'' a \<and> is_digit b
                then [(10 * digit_val a + digit_val b, r')] else []) @
               (if a = CHR ''0'' \<and> in_range CHR ''1'' CHR ''9'' b
                then [(digit_val b, r')] else [])) @
          (if in_range CHR ''1'' CHR ''9'' a then [(digit_val a, r)] else []) @
          (case r of
             [] \<Rightarrow> []
           | b # r' \<Rightarrow>
               (if a = CHR '' '' \<and> in_range CHR ''1'' CHR ''9'' b
                then [(digit_val b, r')] else [])))"

definition after_dash :: "string \<Rightarrow> string option" where
  "after_dash s = (case s of [] \<Rightarrow> None | c # r \<Rightarrow> if c = CHR ''-'' then Some r else None)"

definition strptime_ymd :: "string \<Rightarrow> exn + datetime" where
  "strptime_ymd s =
     (if 4 \<le> length s \<and> list_all is_digit (take 4 s) then
        (case digits_value False 0 (take 4 s) of
           None \<Rightarrow> Inl ValueError
         | Some y \<Rightarrow>
             (case after_dash (drop 4 s) of
                None \<Rightarrow> Inl ValueError
              | Some r \<Rightarrow>
                  (case concat (map (\<lambda>(m, r1).
                           case after_dash r1 of
                             None \<Rightarrow> []
                           | Some r2 \<Rightarrow> map (\<lambda>(d, r3). (m, d))
                                          (filter (\<lambda>(d, r3). r3 = []) (match_day r2)))
                         (match_month r)) of
                     [] \<Rightarrow> Inl ValueError
                   | (m, d) # _ \<Rightarrow> mk_datetime (int y) (int m) (int d) 0 0 0)))
      else Inl ValueError)"

subsection \<open>The machine state\<close>

text \<open>An item of a page is a JSON object; the four fields the script reads hold strings.\<close>

type_synonym item = "(string \<times> string) list"

text \<open>A row of the CSV destination, fields \<^verbatim>\<open>id, time, user, content\<close>.\<close>

record row =
  r_id :: string
  r_time :: datetime
  r_user :: string
  r_content :: string

datatype csv_line = Header | Row row

text \<open>What an HTTP POST comes back with: no connection (\<^verbatim>\<open>requests\<close> raises), or a
  status code and the decoded JSON body (\<open>None\<close>: the body is not what the caller
  indexes, so \<^verbatim>\<open>res.json()[...]\<close> raises).\<close>

datatype 'a http = NoConnection | Response nat "'a option"

datatype jval = JStr string | JInt int

text \<open>The configuration file: missing, not readable, not JSON, JSON but not an object, or
  an object.\<close>

datatype cfile =
  Absent | Unreadable | Unparsable | NotObject | Object "(string \<times> jval) list"

text \<open>The requests sent: the refresh token of a token exchange; the authorization
  header and the JSON body of a page request.\<close>

datatype request = TokenPost string | ListPost string "(string \<times> string) list"

datatype level = INFO | WARNING | ERROR

datatype event =
    NewTokenAcquired
  | RefreshTokenUpdated
  | FailedToUpdateRefreshToken exn
  | StatusCode nat
  | ErrorRefreshingToken exn
  | PageInProgress nat
  | ErrorOnPage nat exn
  | UnableToAcquireAccessToken exn
  | PageSuccess nat datetime
  | Dashes
  | ScrapingInterrupted
  | FileClosed string
  | ErrorThresholdReached
  | SuccessfullyDone
  | DefaultConfigCreated

text \<open>
  One record holds the local variables of \<^verbatim>\<open>scrape_sahamyab\<close> and the world around the
  script.
  \<^item> \<open>last_id\<close> is a string, but for the value that pandas read from the destination as
    a number: then \<open>numeric_id\<close> is set and \<open>last_id\<close> holds \<^verbatim>\<open>str(last_id)\<close>, its decimal
    digits.
  \<^item> \<open>now\<close>: what \<^verbatim>\<open>dt.datetime.now()\<close> reads.
  \<^item> \<open>sigint\<close>: \<open>Some n\<close> when Ctrl-C arrives after \<open>n\<close> more operations on the world;
    it is then raised as KeyboardInterrupt at the next one.
  \<^item> \<open>auth_replies\<close>: what the token endpoint answers, call after call.
  \<^item> \<open>cfiles\<close>: the configuration files by path; \<open>readonly\<close>: the paths that cannot be
    opened for writing.
  \<^item> \<open>disk\<close>: the CSV files by path, as lines; \<open>handle\<close>: the open destination, with
    the lines written to it and not yet flushed.
  \<^item> \<open>logged\<close>: the log; \<open>requests\<close>: the requests sent.
  The configuration file and the destination are taken to be different files.
\<close>

record state =
  last_id :: string
  numeric_id :: bool
  date :: datetime
  page :: nat
  token_type :: string
  access_token :: string
  ref_token :: string
  error_count :: int
  o_mode :: string
  repeat :: bool
  now :: datetime
  sigint :: "nat option"
  auth_replies :: "(string \<times> string) list http list"
  cfiles :: "string \<Rightarrow> cfile"
  readonly :: "string \<Rightarrow> bool"
  disk :: "string \<Rightarrow> csv_line list option"
  handle :: "(string \<times> csv_line list) option"
  logged :: "(level \<times> event) list"
  requests :: "request list"

text \<open>A computation returns a value, raises, or never returns (\<open>Stuck\<close>: it waits for
  an answer the endpoint never gives). Each outcome carries the state it was reached in.\<close>

datatype 'a res = Done 'a state | Raised exn state | Stuck state

fun final :: "'a res \<Rightarrow> state" where
  "final (Done a s) = s"
| "final (Raised e s) = s"
| "final (Stuck s) = s"

definition then_do :: "'a res \<Rightarrow> ('a \<Rightarrow> state \<Rightarrow> 'b res) \<Rightarrow> 'b res" where
  "then_do m f =
     (case m of Done a s \<Rightarrow> f a s | Raised e s \<Rightarrow> Raised e s | Stuck s \<Rightarrow> Stuck s)"

text \<open>\<^verbatim>\<open>try: m  except Exception as e: h\<close>\<close>

definition try_except :: "'a res \<Rightarrow> (exn \<Rightarrow> state \<Rightarrow> 'a res) \<Rightarrow> 'a res" where
  "try_except m h =
     (case m of
        Done a s \<Rightarrow> Done a s
      | Raised e s \<Rightarrow> if is_Exception e then h e s else Raised e s
      | Stuck s \<Rightarrow> Stuck s)"

text \<open>Every operation on the world is a point where a pending Ctrl-C is delivered.\<close>

definition tick :: "state \<Rightarrow> unit res" where
  "tick s =
     (case sigint s of
        None \<Rightarrow> Done () s
      | Some n \<Rightarrow>
          (case n of
             0 \<Rightarrow> Raised KeyboardInterrupt (s\<lparr>sigint := None\<rparr>)
           | Suc k \<Rightarrow> Done () (s\<lparr>sigint := Some k\<rparr>)))"

text \<open>A call that waits for an answer that never comes: only Ctrl-C ends it.\<close>

definition await :: "state \<Rightarrow> 'a res" where
  "await s =
     (case sigint s of
        None \<Rightarrow> Stuck s
      | Some _ \<Rightarrow> Raised KeyboardInterrupt (s\<lparr>sigint := None\<rparr>))"

text \<open>The log level is INFO, so \<^verbatim>\<open>logging.debug\<close> writes nothing and is left out.\<close>

definition logging :: "level \<Rightarrow> event \<Rightarrow> state \<Rightarrow> unit res" where
  "logging l e s = then_do (tick s) (\<lambda>_ s. Done () (s\<lparr>logged := logged s @ [(l, e)]\<rparr>))"

definition lift_exn :: "exn + 'a \<Rightarrow> state \<Rightarrow> 'a res" where
  "lift_exn m s = (case m of Inl e \<Rightarrow> Raised e s | Inr a \<Rightarrow> Done a s)"

text \<open>\<^verbatim>\<open>d[k]\<close> on a dict: KeyError when the key is missing.\<close>

definition getitem :: "(string \<times> 'v) list \<Rightarrow> string \<Rightarrow> exn + 'v" where
  "getitem d k = (case map_of d k of None \<Rightarrow> Inl (KeyError k) | Some v \<Rightarrow> Inr v)"

subsection \<open>refresh_token\<close>

definition refresh_token :: "string \<Rightarrow> state \<Rightarrow> (string \<times> string \<times> string) res" where
  "refresh_token token s =
     then_do (tick s) (\<lambda>_ s.
       case auth_replies s of
         [] \<Rightarrow> await (s\<lparr>requests := requests s @ [TokenPost token]\<rparr>)
       | r # rs \<Rightarrow>
           (let s = s\<lparr>requests := requests s @ [TokenPost token], auth_replies := rs\<rparr> in
            case r of
              NoConnection \<Rightarrow> Raised ConnectionError s
            | Response code body \<Rightarrow>
                if code = 200 then
                  (case body of
                     None \<Rightarrow> Raised JSONDecodeError s
                   | Some res_json \<Rightarrow>
                       then_do (logging INFO NewTokenAcquired s) (\<lambda>_ s.
                       then_do (lift_exn (getitem res_json ''token_type'') s) (\<lambda>tt s.
                       then_do (lift_exn (getitem res_json ''access_token'') s) (\<lambda>at s.
                       then_do (lift_exn (getitem res_json ''refresh_token'') s) (\<lambda>rt s.
                       Done (tt, at, rt) s)))))
                else Raised (RuntimeError UnableToAcquireToken) s))"

subsection \<open>update_config_refresh_token\<close>

text \<open>\<^verbatim>\<open>with open(path, 'r') as f: json.load(f)\<close>\<close>

definition read_json :: "string \<Rightarrow> state \<Rightarrow> cfile res" where
  "read_json path s =
     then_do (tick s) (\<lambda>_ s.
       case cfiles s path of
         Absent \<Rightarrow> Raised FileNotFoundError s
       | Unreadable \<Rightarrow> Raised PermissionError s
       | Unparsable \<Rightarrow> Raised JSONDecodeError s
       | NotObject \<Rightarrow> Done NotObject s
       | Object kv \<Rightarrow> Done (Object kv) s)"

text \<open>\<^verbatim>\<open>with open(path, 'w') as f: json.dump(config, f, ...)\<close>\<close>

definition write_json :: "string \<Rightarrow> (string \<times> jval) list \<Rightarrow> state \<Rightarrow> unit res" where
  "write_json path config s =
     then_do (tick s) (\<lambda>_ s.
       if readonly s path then Raised PermissionError s
       else Done () (s\<lparr>cfiles := (cfiles s)(path := Object config)\<rparr>))"

text \<open>\<^verbatim>\<open>config[k] = v\<close> on what json.load gave: TypeError unless it is a dict.\<close>

definition setitem :: "cfile \<Rightarrow> string \<Rightarrow> jval \<Rightarrow> exn + (string \<times> jval) list" where
  "setitem config k v =
     (case config of Object kv \<Rightarrow> Inr (AList.update k v kv) | _ \<Rightarrow> Inl TypeError)"

definition update_config_refresh_token :: "string \<Rightarrow> string \<Rightarrow> state \<Rightarrow> unit res" where
  "update_config_refresh_token path new_ref_token s =
     try_except
       (then_do (read_json path s) (\<lambda>config s.
        then_do (lift_exn (setitem config ''ref_token'' (JStr new_ref_token)) s) (\<lambda>config s.
        then_do (write_json path config s) (\<lambda>_ s.
        logging INFO RefreshTokenUpdated s))))
       (\<lambda>e s. logging ERROR (FailedToUpdateRefreshToken e) s)"

subsection \<open>load_data\<close>

text \<open>The answer of the content endpoint to this call is the argument \<open>reply\<close>
  (\<open>None\<close>: it never answers).\<close>

text \<open>Line 151: the JSON body of the request.\<close>

definition request_data :: "nat \<Rightarrow> string \<Rightarrow> string \<Rightarrow> (string \<times> string) list" where
  "request_data n_page l_id symbol =
     (if n_page < 1 then [(''tag'', symbol)] else [(''id'', l_id), (''tag'', symbol)])"

definition load_data ::
  "string \<Rightarrow> string \<Rightarrow> nat \<Rightarrow> string \<Rightarrow> string \<Rightarrow> item list http option \<Rightarrow> state \<Rightarrow> item list res"
where
  "load_data tt at n_page l_id symbol reply s =
     (let data = request_data n_page l_id symbol in
      then_do (tick s) (\<lambda>_ s.
        let s = s\<lparr>requests := requests s @ [ListPost (tt @ '' '' @ at) data]\<rparr> in
        case reply of
          None \<Rightarrow> await s
        | Some r \<Rightarrow>
            (case r of
               NoConnection \<Rightarrow> Raised ConnectionError s
             | Response code body \<Rightarrow>
                 if code = 200 then
                   then_do (logging INFO (StatusCode code) s) (\<lambda>_ s.
                     case body of
                       None \<Rightarrow> Raised (RuntimeError DataCorrupted) s
                     | Some items \<Rightarrow> Done items s)
                 else Raised (RuntimeError (BadResponse code)) s)))"

subsection \<open>The destination file\<close>

text \<open>pandas infers the type of a column. A column of plain decimal numerals is read as
  64-bit integers (18 digits always fit), so that \<^verbatim>\<open>007\<close> comes back as the number 7;
  \<open>numeric_str\<close> is \<^verbatim>\<open>str\<close> of that number. A column with any other entry is kept as text
  here. (pandas also reads signed numbers, floats and missing values in its own way:
  destinations with such ids are not described by this model.)\<close>

definition is_plain_number :: "string \<Rightarrow> bool" where
  "is_plain_number x = (x \<noteq> [] \<and> list_all is_digit x \<and> length x \<le> 18)"

definition numeric_str :: "string \<Rightarrow> string" where
  "numeric_str x = (case dropWhile (\<lambda>c. c = CHR ''0'') x of [] \<Rightarrow> ''0'' | c # cs \<Rightarrow> c # cs)"

text \<open>The fields of a line as text (the time is never the text \<^verbatim>\<open>id\<close>, and is not needed).
  A later header line is a row of data like any other.\<close>

definition id_field :: "csv_line \<Rightarrow> string" where
  "id_field l = (case l of Row r \<Rightarrow> r_id r | Header \<Rightarrow> ''id'')"

definition user_field :: "csv_line \<Rightarrow> string" where
  "user_field l = (case l of Row r \<Rightarrow> r_user r | Header \<Rightarrow> ''user'')"

definition content_field :: "csv_line \<Rightarrow> string" where
  "content_field l = (case l of Row r \<Rightarrow> r_content r | Header \<Rightarrow> ''content'')"

text \<open>The first line names the columns: the column \<^verbatim>\<open>id\<close> is the first one of that name.\<close>

definition id_column :: "csv_line \<Rightarrow> (csv_line \<Rightarrow> string) option" where
  "id_column l =
     (if id_field l = ''id'' then Some id_field
      else if user_field l = ''id'' then Some user_field
      else if content_field l = ''id'' then Some content_field
      else None)"

text \<open>\<^verbatim>\<open>df = pd.read_csv(file_name); df['id'].iloc[-1]\<close>. An empty file cannot be parsed; a
  file whose first line names no column \<^verbatim>\<open>id\<close> gives KeyError; a file of one line has no
  last row. The result is the last entry of the column and whether it is a number.\<close>

definition read_csv_last_id :: "string \<Rightarrow> state \<Rightarrow> (string \<times> bool) res" where
  "read_csv_last_id path s =
     then_do (tick s) (\<lambda>_ s.
       case disk s path of
         None \<Rightarrow> Raised FileNotFoundError s
       | Some ls \<Rightarrow>
           (case ls of
              [] \<Rightarrow> Raised EmptyDataError s
            | l # rows \<Rightarrow>
                (case id_column l of
                   None \<Rightarrow> Raised (KeyError ''id'') s
                 | Some field \<Rightarrow>
                     if rows = [] then Raised IndexError s
                     else if list_all is_plain_number (map field rows)
                     then Done (numeric_str (field (last rows)), True) s
                     else Done (field (last rows), False) s)))"

text \<open>\<^verbatim>\<open>open(file_name, mode=o_mode, ...)\<close>: mode w truncates, mode a keeps the content;
  both create a missing file.\<close>

definition open_file :: "string \<Rightarrow> string \<Rightarrow> state \<Rightarrow> unit res" where
  "open_file path mode s =
     then_do (tick s) (\<lambda>_ s.
       if mode \<noteq> ''a'' \<and> mode \<noteq> ''w'' then Raised ValueError s
       else if readonly s path then Raised PermissionError s
       else Done () (s\<lparr>disk := (disk s)(path \<mapsto>
                           (if mode = ''w'' then []
                            else case disk s path of None \<Rightarrow> [] | Some ls \<Rightarrow> ls)),
                        handle := Some (path, [])\<rparr>))"

text \<open>\<^verbatim>\<open>writer.writeheader()\<close> and \<^verbatim>\<open>writer.writerow(row)\<close> write one line to the open
  file, where it stays buffered.\<close>

definition write_line :: "csv_line \<Rightarrow> state \<Rightarrow> unit res" where
  "write_line l s =
     then_do (tick s) (\<lambda>_ s.
       case handle s of
         None \<Rightarrow> Raised ValueError s
       | Some (p, buf) \<Rightarrow> Done () (s\<lparr>handle := Some (p, buf @ [l])\<rparr>))"

text \<open>\<^verbatim>\<open>_file.close()\<close> flushes the buffered lines to the file.\<close>

definition close_file :: "state \<Rightarrow> unit res" where
  "close_file s =
     then_do (tick s) (\<lambda>_ s.
       case handle s of
         None \<Rightarrow> Done () s
       | Some (p, buf) \<Rightarrow>
           Done () (s\<lparr>disk := (disk s)(p \<mapsto>
                               (case disk s p of None \<Rightarrow> [] | Some ls \<Rightarrow> ls) @ buf),
                      handle := None\<rparr>))"

subsection \<open>scrape_sahamyab\<close>

record params =
  file_name :: string
  symbol :: string
  error_thold :: int
  start_date :: datetime
  config_path :: string

text \<open>How a block of statements ends: it falls through to the next statement, or it
  executes \<^verbatim>\<open>return\<close>.\<close>

datatype 'a completion = Normal 'a | Return

datatype signal = Continue | Break

definition init_locals :: "string \<Rightarrow> state \<Rightarrow> state" where
  "init_locals rt s =
     s\<lparr>last_id := [], numeric_id := False, date := now s, page := 0, token_type := [], access_token := [],
       ref_token := rt, error_count := 0, o_mode := []\<rparr>"

text \<open>Lines 203 to 208: the token is refreshed before anything else.\<close>

definition initial_refresh :: "params \<Rightarrow> state \<Rightarrow> unit completion res" where
  "initial_refresh P s =
     try_except
       (then_do (refresh_token (ref_token s) s) (\<lambda>(tt, at, rt) s.
        then_do (update_config_refresh_token (config_path P) rt
                   (s\<lparr>token_type := tt, access_token := at, ref_token := rt\<rparr>)) (\<lambda>_ s.
        Done (Normal ()) s)))
       (\<lambda>e s. then_do (logging ERROR (ErrorRefreshingToken e) s) (\<lambda>_ s. Done Return s))"

text \<open>Lines 213 to 219: append to an existing file and resume after its last id.\<close>

definition choose_mode :: "params \<Rightarrow> state \<Rightarrow> unit res" where
  "choose_mode P s =
     (if disk s (file_name P) \<noteq> None then
        then_do (read_csv_last_id (file_name P) (s\<lparr>o_mode := ''a''\<rparr>)) (\<lambda>(lid, num) s.
        Done () (s\<lparr>last_id := lid, numeric_id := num, page := page s + 1\<rparr>))
      else Done () (s\<lparr>o_mode := ''w''\<rparr>))"

definition make_row :: "item \<Rightarrow> exn + row" where
  "make_row item =
     bind_exn (getitem item ''id'') (\<lambda>i.
     bind_exn (getitem item ''sendTime'') (\<lambda>st.
     bind_exn (to_datetime st) (\<lambda>t.
     bind_exn (getitem item ''senderUsername'') (\<lambda>u.
     bind_exn (getitem item ''content'') (\<lambda>c.
     Inr \<lparr>r_id = i, r_time = t, r_user = u, r_content = c\<rparr>)))))"

text \<open>Lines 262 to 271: \<^verbatim>\<open>for item in items\<close>.\<close>

fun write_items :: "item list \<Rightarrow> state \<Rightarrow> unit res" where
  "write_items [] s = Done () s"
| "write_items (item # items) s =
     then_do (lift_exn (make_row item) s) (\<lambda>row s.
     then_do (write_line (Row row) (s\<lparr>date := r_time row\<rparr>)) (\<lambda>_ s.
     write_items items s))"

text \<open>\<^verbatim>\<open>items[-1]\<close>\<close>

definition last_of :: "'a list \<Rightarrow> exn + 'a" where
  "last_of xs = (if xs = [] then Inl IndexError else Inr (last xs))"

text \<open>Lines 241 to 253: the handler of a failed \<^verbatim>\<open>load_data\<close>.\<close>

definition on_fetch_error :: "params \<Rightarrow> exn \<Rightarrow> state \<Rightarrow> signal res" where
  "on_fetch_error P e s =
     then_do (logging ERROR (ErrorOnPage (page s) e) s) (\<lambda>_ s.
       (let s = s\<lparr>error_count := error_count s + 1\<rparr> in
        if error_count s = error_thold P then
          try_except
            (then_do (refresh_token (ref_token s) s) (\<lambda>(tt, at, rt) s.
             then_do (update_config_refresh_token (config_path P) rt
                        (s\<lparr>token_type := tt, access_token := at, ref_token := rt\<rparr>)) (\<lambda>_ s.
             Done Continue s)))
            (\<lambda>e s. then_do (logging WARNING (UnableToAcquireAccessToken e) s) (\<lambda>_ s.
                    Done Break s))
        else if error_thold P + 5 \<le> error_count s then Done Break s
        else Done Continue s))"

text \<open>Lines 255 to 277: what is done with a page that was fetched. The ids of a page are
  strings, and a number is not equal to a string: the test of line 256 fails when
  \<open>last_id\<close> is the number read from the destination.\<close>

definition process_page :: "params \<Rightarrow> item list \<Rightarrow> state \<Rightarrow> signal res" where
  "process_page P items s =
     then_do (lift_exn (last_of items) s) (\<lambda>last_item s.
     then_do (lift_exn (getitem last_item ''id'') s) (\<lambda>lid s.
       if \<not> numeric_id s \<and> last_id s = lid then Done Continue (s\<lparr>repeat := True\<rparr>)
       else
         then_do (write_items items (s\<lparr>last_id := lid, numeric_id := False\<rparr>)) (\<lambda>_ s.
         then_do (lift_exn (bind_exn (getitem last_item ''sendTime'') to_datetime) s) (\<lambda>t s.
         then_do (logging INFO (PageSuccess (page s) t) s) (\<lambda>_ s.
         then_do (logging INFO Dashes s) (\<lambda>_ s.
         Done Continue (s\<lparr>repeat := False, page := page s + 1, error_count := 0\<rparr>)))))))"

text \<open>One pass through the body of the \<^verbatim>\<open>while\<close> loop. Only \<^verbatim>\<open>load_data\<close> is inside the
  inner \<^verbatim>\<open>try\<close>.\<close>

definition iteration :: "params \<Rightarrow> item list http option \<Rightarrow> state \<Rightarrow> signal res" where
  "iteration P reply s =
     then_do (if \<not> repeat s then logging INFO (PageInProgress (page s)) s else Done () s)
       (\<lambda>_ s.
          case load_data (token_type s) (access_token s) (page s) (last_id s) (symbol P)
                 reply s of
            Done items s \<Rightarrow> process_page P items s
          | Raised e s \<Rightarrow> if is_Exception e then on_fetch_error P e s else Raised e s
          | Stuck s \<Rightarrow> Stuck s)"

text \<open>\<^verbatim>\<open>while date > start_date\<close>. Every pass calls \<^verbatim>\<open>load_data\<close> once, so the loop is
  a recursion on the answers of the content endpoint; when they have run out, the next
  call never returns.\<close>

fun while_loop :: "params \<Rightarrow> item list http list \<Rightarrow> state \<Rightarrow> unit res" where
  "while_loop P [] s =
     (if dt_gt (date s) (start_date P)
      then then_do (iteration P None s) (\<lambda>_ s. Stuck s)
      else Done () s)"
| "while_loop P (r # rs) s =
     (if dt_gt (date s) (start_date P)
      then then_do (iteration P (Some r) s) (\<lambda>sig s.
             case sig of Continue \<Rightarrow> while_loop P rs s | Break \<Rightarrow> Done () s)
      else Done () s)"

text \<open>Lines 224 to 277: the body of the outer \<^verbatim>\<open>try\<close>.\<close>

definition guarded :: "params \<Rightarrow> item list http list \<Rightarrow> state \<Rightarrow> unit res" where
  "guarded P rs s =
     then_do (if o_mode s = ''w'' then write_line Header s else Done () s) (\<lambda>_ s.
     while_loop P rs (s\<lparr>repeat := False\<rparr>))"

text \<open>\<^verbatim>\<open>except KeyboardInterrupt: h\<close>\<close>

definition except_KeyboardInterrupt :: "'a res \<Rightarrow> (state \<Rightarrow> 'a res) \<Rightarrow> 'a res" where
  "except_KeyboardInterrupt m h =
     (case m of
        Done a s \<Rightarrow> Done a s
      | Raised e s \<Rightarrow> if e = KeyboardInterrupt then h s else Raised e s
      | Stuck s \<Rightarrow> Stuck s)"

text \<open>\<^verbatim>\<open>try: m  finally: fin\<close>. The \<^verbatim>\<open>finally\<close> block runs however \<open>m\<close> ended. When it
  ends in \<^verbatim>\<open>return\<close>, the function returns and a pending exception is dropped; when it
  raises, its exception replaces the pending one; when it falls through, the pending
  exception goes on.\<close>

definition try_finally :: "'a res \<Rightarrow> (state \<Rightarrow> unit completion res) \<Rightarrow> 'a completion res" where
  "try_finally m fin =
     (case m of
        Done a s \<Rightarrow>
          (case fin s of
             Done c s' \<Rightarrow> (case c of Normal _ \<Rightarrow> Done (Normal a) s' | Return \<Rightarrow> Done Return s')
           | Raised e s' \<Rightarrow> Raised e s'
           | Stuck s' \<Rightarrow> Stuck s')
      | Raised e s \<Rightarrow>
          (case fin s of
             Done c s' \<Rightarrow> (case c of Normal _ \<Rightarrow> Raised e s' | Return \<Rightarrow> Done Return s')
           | Raised e' s' \<Rightarrow> Raised e' s'
           | Stuck s' \<Rightarrow> Stuck s')
      | Stuck s \<Rightarrow> Stuck s)"

text \<open>Lines 281 to 284.\<close>

definition finally_block :: "params \<Rightarrow> state \<Rightarrow> unit completion res" where
  "finally_block P s =
     then_do (close_file s) (\<lambda>_ s.
     then_do (logging INFO (FileClosed (file_name P)) s) (\<lambda>_ s.
     Done Return s))"

text \<open>Lines 223 to 284: the outer \<^verbatim>\<open>try\<close> statement.\<close>

definition try_statement :: "params \<Rightarrow> item list http list \<Rightarrow> state \<Rightarrow> unit completion res" where
  "try_statement P rs s =
     try_finally
       (except_KeyboardInterrupt (guarded P rs s) (\<lambda>s. logging WARNING ScrapingInterrupted s))
       (finally_block P)"

text \<open>Lines 286 to 290 (the elapsed time in the two messages is left out).\<close>

definition report :: "params \<Rightarrow> state \<Rightarrow> unit res" where
  "report P s =
     (if error_thold P \<le> error_count s then logging ERROR ErrorThresholdReached s
      else logging INFO SuccessfullyDone s)"

text \<open>Lines 194 to 222: everything before the outer \<^verbatim>\<open>try\<close>.\<close>

definition prologue :: "params \<Rightarrow> string \<Rightarrow> state \<Rightarrow> unit completion res" where
  "prologue P rt s =
     then_do (initial_refresh P (init_locals rt s)) (\<lambda>c s.
       case c of
         Return \<Rightarrow> Done Return s
       | Normal _ \<Rightarrow>
           then_do (choose_mode P s) (\<lambda>_ s.
           then_do (open_file (file_name P) (o_mode s) s) (\<lambda>_ s.
           Done (Normal ()) s)))"

definition scrape_sahamyab :: "params \<Rightarrow> string \<Rightarrow> item list http list \<Rightarrow> state \<Rightarrow> unit res" where
  "scrape_sahamyab P rt rs s =
     then_do (prologue P rt s) (\<lambda>c s.
       case c of
         Return \<Rightarrow> Done () s
       | Normal _ \<Rightarrow>
           then_do (try_statement P rs s) (\<lambda>c s.
             case c of
               Return \<Rightarrow> Done () s
             | Normal _ \<Rightarrow> report P s))"

subsection \<open>main\<close>

definition default_symbol :: string where
  "default_symbol =
     [CHR 0xD8, CHR 0xB4, CHR 0xD8, CHR 0xA8, CHR 0xD9, CHR 0x86, CHR 0xD8, CHR 0xAF,
      CHR 0xD8, CHR 0xB1]"

definition default_config :: "(string \<times> jval) list" where
  "default_config =
     [(''file_name'', JStr ''data.csv''),
      (''symbol'', JStr default_symbol),
      (''error_thold'', JInt 5),
      (''ref_token'', JStr []),
      (''start_date'', JStr ''2020-08-01'')]"

text \<open>Lines 300 to 314: only a missing file is handled.\<close>

definition load_config :: "string \<Rightarrow> state \<Rightarrow> cfile res" where
  "load_config path s =
     (case read_json path s of
        Done c s' \<Rightarrow> Done c s'
      | Raised e s' \<Rightarrow>
          if e = FileNotFoundError then
            then_do (write_json path default_config s') (\<lambda>_ s.
            then_do (logging INFO DefaultConfigCreated s) (\<lambda>_ s.
            Done (Object default_config) s))
          else Raised e s'
      | Stuck s' \<Rightarrow> Stuck s')"

text \<open>\<^verbatim>\<open>config[k]\<close> on what json.load gave.\<close>

definition config_get :: "cfile \<Rightarrow> string \<Rightarrow> exn + jval" where
  "config_get config k = (case config of Object kv \<Rightarrow> getitem kv k | _ \<Rightarrow> Inl TypeError)"

text \<open>The parameters of \<^verbatim>\<open>scrape_sahamyab\<close> that are strings: a configuration that holds
  a number there is reported as a TypeError.\<close>

definition as_str :: "jval \<Rightarrow> exn + string" where
  "as_str v = (case v of JStr x \<Rightarrow> Inr x | JInt _ \<Rightarrow> Inl TypeError)"

text \<open>\<^verbatim>\<open>int(v)\<close>\<close>

definition int_of_jval :: "jval \<Rightarrow> exn + int" where
  "int_of_jval v = (case v of JInt n \<Rightarrow> Inr n | JStr x \<Rightarrow> py_int x)"

definition main :: "item list http list \<Rightarrow> state \<Rightarrow> unit res" where
  "main rs s =
     then_do (load_config ''config.json'' s) (\<lambda>config s.
     then_do (lift_exn (bind_exn (config_get config ''start_date'')
                         (\<lambda>v. bind_exn (as_str v) strptime_ymd)) s) (\<lambda>start s.
     then_do (lift_exn (bind_exn (config_get config ''file_name'') as_str) s) (\<lambda>fn s.
     then_do (lift_exn (bind_exn (config_get config ''symbol'') as_str) s) (\<lambda>sym s.
     then_do (lift_exn (bind_exn (config_get config ''ref_token'') as_str) s) (\<lambda>rt s.
     then_do (lift_exn (bind_exn (config_get config ''error_thold'') int_of_jval) s) (\<lambda>th s.
     scrape_sahamyab
       \<lparr>file_name = fn, symbol = sym, error_thold = th, start_date = start,
        config_path = ''config.json''\<rparr> rt rs s))))))"

subsection \<open>Notions used in the statements\<close>

text \<open>Why a page request fails, if it does: the exception \<^verbatim>\<open>load_data\<close> raises.\<close>

definition fetch_error :: "item list http \<Rightarrow> exn option" where
  "fetch_error r =
     (case r of
        NoConnection \<Rightarrow> Some ConnectionError
      | Response code body \<Rightarrow>
          if code \<noteq> 200 then Some (RuntimeError (BadResponse code))
          else if body = None then Some (RuntimeError DataCorrupted) else None)"

text \<open>The two outcome messages of lines 286 to 290, as they occur in a log.\<close>

definition reports :: "state \<Rightarrow> event list" where
  "reports s =
     filter (\<lambda>e. e = ErrorThresholdReached \<or> e = SuccessfullyDone) (map snd (logged s))"

text \<open>What the token endpoint grants with an answer, if it grants anything: the three
  fields \<^verbatim>\<open>refresh_token\<close> returns.\<close>

definition auth_grant :: "(string \<times> string) list http \<Rightarrow> (string \<times> string \<times> string) option" where
  "auth_grant r =
     (case r of
        NoConnection \<Rightarrow> None
      | Response code body \<Rightarrow>
          if code \<noteq> 200 then None
          else (case body of
                  None \<Rightarrow> None
                | Some kv \<Rightarrow>
                    (case (map_of kv ''token_type'', map_of kv ''access_token'',
                           map_of kv ''refresh_token'') of
                       (Some tt, Some at, Some rt) \<Rightarrow> Some (tt, at, rt)
                     | _ \<Rightarrow> None)))"

text \<open>What a pass of the loop logs until the content endpoint has answered with \<open>r\<close>, and
  the request it sends.\<close>

definition fetch_log :: "item list http \<Rightarrow> state \<Rightarrow> (level \<times> event) list" where
  "fetch_log r s =
     (if repeat s then [] else [(INFO, PageInProgress (page s))])
     @ (case r of
          NoConnection \<Rightarrow> []
        | Response code body \<Rightarrow> if code = 200 then [(INFO, StatusCode 200)] else [])"

definition page_request :: "params \<Rightarrow> state \<Rightarrow> request" where
  "page_request P s =
     ListPost (token_type s @ '' '' @ access_token s)
       (request_data (page s) (last_id s) (symbol P))"

text \<open>An id as the platform gives it: a plain decimal numeral without leading zeros.\<close>

definition canonical_id :: "string \<Rightarrow> bool" where
  "canonical_id x = (is_plain_number x \<and> (x = ''0'' \<or> hd x \<noteq> CHR ''0''))"

text \<open>The parameters that \<^verbatim>\<open>main\<close> reads from the default configuration.\<close>

definition default_params :: params where
  "default_params =
     \<lparr>file_name = ''data.csv'', symbol = default_symbol, error_thold = 5,
      start_date = \<lparr>year = 2020, month = 8, day = 1, hour = 0, minute = 0, second = 0,
                     microsecond = 0\<rparr>,
      config_path = ''config.json''\<rparr>"

subsection \<open>Notions used in the proofs\<close>

text \<open>What the body of the outer \<^verbatim>\<open>try\<close> can do to the world: it does not log an outcome
  message, it only adds requests, it leaves the files on disk alone, and it only adds
  lines to the open file. \<open>sound\<close> says so of a computation, and that a KeyboardInterrupt
  comes out with no Ctrl-C pending any more. \<open>plain\<close>: a pure function does not produce
  KeyboardInterrupt.\<close>

definition evolves :: "state \<Rightarrow> state \<Rightarrow> bool" where
  "evolves s s' =
     (reports s' = reports s \<and> (\<exists>m. requests s' = requests s @ m) \<and> disk s' = disk s
      \<and> (case handle s of
            None \<Rightarrow> handle s' = None
          | Some (p, buf) \<Rightarrow> \<exists>m. handle s' = Some (p, buf @ m)))"

definition sound :: "state \<Rightarrow> 'a res \<Rightarrow> bool" where
  "sound s0 m =
     (evolves s0 (final m) \<and> (\<forall>s'. m = Raised KeyboardInterrupt s' \<longrightarrow> sigint s' = None))"

definition is_report :: "event \<Rightarrow> bool" where
  "is_report e = (e = ErrorThresholdReached \<or> e = SuccessfullyDone)"

definition plain :: "exn + 'a \<Rightarrow> bool" where
  "plain x = (x \<noteq> Inl KeyboardInterrupt)"

text \<open>The weaker relation that also holds across opening and closing the destination.\<close>

definition keeps :: "state \<Rightarrow> state \<Rightarrow> bool" where
  "keeps s s' = (reports s' = reports s \<and> (\<exists>m. requests s' = requests s @ m))"

subsection \<open>Example worlds\<close>

definition world0 :: state where
  "world0 =
     \<lparr>last_id = [], numeric_id = False,
      date = \<lparr>year = 1, month = 1, day = 1, hour = 0, minute = 0, second = 0,
               microsecond = 0\<rparr>,
      page = 0, token_type = [], access_token = [], ref_token = [], error_count = 0,
      o_mode = [], repeat = False,
      now = \<lparr>year = 2024, month = 3, day = 9, hour = 8, minute = 30, second = 0,
              microsecond = 17\<rparr>,
      sigint = None, auth_replies = [], cfiles = (\<lambda>_. Absent), readonly = (\<lambda>_. False),
      disk = (\<lambda>_. None), handle = None, logged = [], requests = []\<rparr>"

definition token_reply :: "(string \<times> string) list http" where
  "token_reply =
     Response 200 (Some [(''token_type'', ''Bearer''), (''access_token'', ''A1''),
                         (''refresh_token'', ''R1'')])"

definition params0 :: params where
  "params0 =
     \<lparr>file_name = ''data.csv'', symbol = ''X'', error_thold = 5,
      start_date = \<lparr>year = 2020, month = 8, day = 1, hour = 0, minute = 0, second = 0,
                     microsecond = 0\<rparr>,
      config_path = ''config.json''\<rparr>"

definition item_a :: item where
  "item_a = [(''id'', ''41''), (''sendTime'', ''2020-08-02T10:00:00Z''),
             (''senderUsername'', ''ali''), (''content'', ''buy'')]"

definition item_b :: item where
  "item_b = [(''id'', ''40''), (''sendTime'', ''2020-07-31T09:15:30Z''),
             (''senderUsername'', ''sara''), (''content'', ''sell'')]"

definition row_a :: row where
  "row_a = \<lparr>r_id = ''41'',
            r_time = \<lparr>year = 2020, month = 8, day = 2, hour = 10, minute = 0, second = 0,
                       microsecond = 0\<rparr>,
            r_user = ''ali'', r_content = ''buy''\<rparr>"

definition row_b :: row where
  "row_b = \<lparr>r_id = ''40'',
            r_time = \<lparr>year = 2020, month = 7, day = 31, hour = 9, minute = 15, second = 30,
                       microsecond = 0\<rparr>,
            r_user = ''sara'', r_content = ''sell''\<rparr>"

text \<open>A world in the middle of a run: the destination is open and holds its header.\<close>

definition world_open :: state where
  "world_open =
     world0\<lparr>date := now world0, token_type := ''Bearer'', access_token := ''A1'',
            ref_token := ''R1'', o_mode := ''w'',
            disk := (\<lambda>_. None)(''data.csv'' \<mapsto> []),
            handle := Some (''data.csv'', [Header])\<rparr>"

text \<open>A world whose token endpoint answers 401.\<close>

definition world_denied :: state where
  "world_denied = world0\<lparr>auth_replies := [Response 401 None]\<rparr>"

text \<open>A world right after the destination was created: nothing is written yet.\<close>

definition world_started :: state where
  "world_started =
     world0\<lparr>date := now world0, token_type := ''Bearer'', access_token := ''A1'',
            ref_token := ''R1'', o_mode := ''w'',
            disk := (\<lambda>_. None)(''data.csv'' \<mapsto> []),
            handle := Some (''data.csv'', [])\<rparr>"

text \<open>A world whose token endpoint grants a token; there is no configuration file.\<close>

definition world_granted :: state where
  "world_granted = world0\<lparr>auth_replies := [token_reply]\<rparr>"

text \<open>A world with a destination written by an earlier run, and one whose last id has
  leading zeros.\<close>

definition world_resumed :: state where
  "world_resumed =
     world0\<lparr>auth_replies := [token_reply],
            disk := (\<lambda>_. None)(''data.csv'' \<mapsto> [Header, Row row_a, Row row_b])\<rparr>"

definition world_zeros :: state where
  "world_zeros =
     world0\<lparr>auth_replies := [token_reply],
            disk := (\<lambda>_. None)(''data.csv'' \<mapsto> [Header, Row (row_a\<lparr>r_id := ''007''\<rparr>)])\<rparr>"

text \<open>An endpoint whose first page holds \<open>item_a\<close> and whose later pages hold \<open>item_b\<close>.\<close>

definition pages_ab :: "nat \<Rightarrow> item list" where
  "pages_ab n = (if n = 0 then [item_a] else [item_b])"

definition rows_ab :: "nat \<Rightarrow> row list" where
  "rows_ab n = (if n = 0 then [row_a] else [row_b])"

section \<open>Properties\<close>

subsection \<open>Running a computation step by step\<close>

lemma then_do_simps [simp]:
  "then_do (Done a s) f = f a s"
  "then_do (Raised e s) f = Raised e s"
  "then_do (Stuck s) f = Stuck s"
  by (simp_all add: then_do_def)

lemma try_except_simps [simp]:
  "try_except (Done a s) h = Done a s"
  "try_except (Raised e s) h = (if is_Exception e then h e s else Raised e s)"
  "try_except (Stuck s) h = Stuck s"
  by (simp_all add: try_except_def)

lemma lift_exn_simps [simp]:
  "lift_exn (Inl e) s = Raised e s"
  "lift_exn (Inr a) s = Done a s"
  by (simp_all add: lift_exn_def)

lemma bind_exn_simps [simp]:
  "bind_exn (Inl e) f = Inl e"
  "bind_exn (Inr a) f = f a"
  by (simp_all add: bind_exn_def)

text \<open>With no Ctrl-C pending, the operations on the world go through.\<close>

lemma tick_quiet [simp]: "sigint s = None \<Longrightarrow> tick s = Done () s"
  by (simp add: tick_def)

lemma logging_quiet [simp]:
  "sigint s = None \<Longrightarrow> logging l e s = Done () (s\<lparr>logged := logged s @ [(l, e)]\<rparr>)"
  by (simp add: logging_def)

lemma logging_cases:
  "logging l e s = Done () (s\<lparr>sigint := map_option (\<lambda>n. n - 1) (sigint s),
                               logged := logged s @ [(l, e)]\<rparr>)
   \<or> logging l e s = Raised KeyboardInterrupt (s\<lparr>sigint := None\<rparr>)"
  by (auto simp: logging_def tick_def split: option.splits nat.splits intro!: state.equality)

lemma load_data_page:
  "sigint s = None \<Longrightarrow>
   load_data tt at n l tg (Some (Response 200 (Some items))) s
   = Done items
       (s\<lparr>logged := logged s @ [(INFO, StatusCode 200)],
          requests := requests s @ [ListPost (tt @ '' '' @ at) (request_data n l tg)]\<rparr>)"
  by (simp add: load_data_def Let_def)

lemma load_data_error:
  "sigint s = None \<Longrightarrow> fetch_error r = Some e \<Longrightarrow>
   load_data tt at n l tg (Some r) s
   = Raised e
       (s\<lparr>logged := logged s @ (case r of
                                  Response code _ \<Rightarrow>
                                    if code = 200 then [(INFO, StatusCode 200)] else []
                                | NoConnection \<Rightarrow> []),
          requests := requests s @ [ListPost (tt @ '' '' @ at) (request_data n l tg)]\<rparr>)"
  by (auto simp: load_data_def Let_def fetch_error_def
      split: http.splits if_splits option.splits)

lemma fetch_error_is_Exception: "fetch_error r = Some e \<Longrightarrow> is_Exception e"
  by (auto simp: fetch_error_def is_Exception_def split: http.splits if_splits)

lemma write_line_quiet:
  "sigint s = None \<Longrightarrow> handle s = Some (p, buf) \<Longrightarrow>
   write_line l s = Done () (s\<lparr>handle := Some (p, buf @ [l])\<rparr>)"
  by (simp add: write_line_def)

lemma write_items_quiet:
  "sigint s = None \<Longrightarrow> handle s = Some (p, buf) \<Longrightarrow> map make_row items = map Inr rows \<Longrightarrow>
   write_items items s
   = Done () (s\<lparr>date := (if rows = [] then date s else r_time (last rows)),
                handle := Some (p, buf @ map Row rows)\<rparr>)"
proof (induction items arbitrary: s buf rows)
  case Nil
  then show ?case by simp
next
  case (Cons it items)
  then obtain r rows' where rows: "rows = r # rows'" and r: "make_row it = Inr r"
    and rest: "map make_row items = map Inr rows'"
    by (cases rows) auto
  let ?s = "s\<lparr>date := r_time r, handle := Some (p, buf @ [Row r])\<rparr>"
  have "write_items items ?s
        = Done () (?s\<lparr>date := (if rows' = [] then date ?s else r_time (last rows')),
                      handle := Some (p, (buf @ [Row r]) @ map Row rows')\<rparr>)"
    by (rule Cons.IH) (use Cons.prems rest in simp_all)
  then show ?case
    using Cons.prems r by (simp add: rows write_line_quiet)
qed

lemma make_row_Inr:
  assumes "make_row it = Inr r"
  shows "getitem it ''id'' = Inr (r_id r)"
    and "bind_exn (getitem it ''sendTime'') to_datetime = Inr (r_time r)"
  using assms
  by (auto simp: make_row_def bind_exn_def split: sum.splits)

lemma rows_last:
  assumes "map make_row items = map Inr rows" and "rows \<noteq> []"
  shows "items \<noteq> []" and "make_row (last items) = Inr (last rows)"
proof -
  show ne: "items \<noteq> []" using assms by auto
  have "last (map make_row items) = last (map Inr rows)" using assms by simp
  then show "make_row (last items) = Inr (last rows)"
    using ne assms(2) by (simp add: last_map)
qed

lemma process_page_new:
  assumes "sigint s = None" and "handle s = Some (p, buf)"
    and "map make_row items = map Inr rows" and "rows \<noteq> []"
    and "r_id (last rows) \<noteq> last_id s"
  shows "process_page P items s
         = Done Continue
             (s\<lparr>last_id := r_id (last rows), numeric_id := False,
                date := r_time (last rows),
                page := page s + 1, error_count := 0, repeat := False,
                handle := Some (p, buf @ map Row rows),
                logged := logged s @ [(INFO, PageSuccess (page s) (r_time (last rows))),
                                      (INFO, Dashes)]\<rparr>)"
proof -
  note l = rows_last [OF assms(3,4)]
  note m = make_row_Inr [OF l(2)]
  have w: "write_items items (s\<lparr>last_id := r_id (last rows), numeric_id := False\<rparr>)
           = Done () (s\<lparr>last_id := r_id (last rows), numeric_id := False,
                        date := r_time (last rows),
                        handle := Some (p, buf @ map Row rows)\<rparr>)"
    using write_items_quiet [of "s\<lparr>last_id := r_id (last rows), numeric_id := False\<rparr>"
            p buf items rows] assms
    by simp
  show ?thesis
    using assms l(1) by (simp add: process_page_def last_of_def m w)
qed

lemma iteration_new:
  assumes "sigint s = None" and "handle s = Some (p, buf)"
    and "map make_row items = map Inr rows" and "rows \<noteq> []"
    and "r_id (last rows) \<noteq> last_id s"
  shows "iteration P (Some (Response 200 (Some items))) s
         = Done Continue
             (s\<lparr>last_id := r_id (last rows), numeric_id := False,
                date := r_time (last rows),
                page := page s + 1, error_count := 0, repeat := False,
                handle := Some (p, buf @ map Row rows),
                logged := logged s @ (if repeat s then [] else [(INFO, PageInProgress (page s))])
                          @ [(INFO, StatusCode 200),
                             (INFO, PageSuccess (page s) (r_time (last rows))),
                             (INFO, Dashes)],
                requests := requests s @ [ListPost (token_type s @ '' '' @ access_token s)
                                            (request_data (page s) (last_id s) (symbol P))]\<rparr>)"
proof (cases "repeat s")
  case True
  then show ?thesis
    using assms
    by (simp add: iteration_def load_data_page
          process_page_new [where p = p and buf = buf and rows = rows])
next
  case False
  then show ?thesis
    using assms
    by (simp add: iteration_def load_data_page
          process_page_new [where p = p and buf = buf and rows = rows])
qed

lemma make_row_item_a: "make_row item_a = Inr row_a"
  by (simp add: item_a_def row_a_def make_row_def getitem_def) code_simp

lemma make_row_item_b: "make_row item_b = Inr row_b"
  by (simp add: item_b_def row_b_def make_row_def getitem_def) code_simp

lemma refresh_token_raised:
  assumes "refresh_token t s = Raised e s1"
  shows "disk s1 = disk s \<and> handle s1 = handle s
         \<and> (is_Exception e \<longrightarrow> requests s1 = requests s @ [TokenPost t])"
  using assms
  by (auto simp: refresh_token_def tick_def logging_def await_def then_do_def lift_exn_def
        getitem_def is_Exception_def Let_def
      split: option.splits nat.splits list.splits http.splits if_splits)

subsection \<open>What the loop can do to the world\<close>

lemma evolves_refl [simp]: "evolves s s"
  by (auto simp: evolves_def split: option.splits)

lemma evolves_locals [simp]:
  "evolves s0 (s\<lparr>last_id := a1\<rparr>) = evolves s0 s"
  "evolves s0 (s\<lparr>numeric_id := a0\<rparr>) = evolves s0 s"
  "evolves s0 (s\<lparr>date := a2\<rparr>) = evolves s0 s"
  "evolves s0 (s\<lparr>page := a3\<rparr>) = evolves s0 s"
  "evolves s0 (s\<lparr>token_type := a4\<rparr>) = evolves s0 s"
  "evolves s0 (s\<lparr>access_token := a5\<rparr>) = evolves s0 s"
  "evolves s0 (s\<lparr>ref_token := a6\<rparr>) = evolves s0 s"
  "evolves s0 (s\<lparr>error_count := a7\<rparr>) = evolves s0 s"
  "evolves s0 (s\<lparr>o_mode := a8\<rparr>) = evolves s0 s"
  "evolves s0 (s\<lparr>repeat := a9\<rparr>) = evolves s0 s"
  "evolves s0 (s\<lparr>sigint := b1\<rparr>) = evolves s0 s"
  "evolves s0 (s\<lparr>auth_replies := b2\<rparr>) = evolves s0 s"
  "evolves s0 (s\<lparr>cfiles := b3\<rparr>) = evolves s0 s"
  by (auto simp: evolves_def reports_def split: option.splits)

lemma evolves_logged [simp]:
  "\<not> is_report e \<Longrightarrow> evolves s0 (s\<lparr>logged := logged s @ [(l, e)]\<rparr>) = evolves s0 s"
  by (auto simp: evolves_def reports_def is_report_def split: option.splits)

lemma evolves_requests:
  "evolves s0 s \<Longrightarrow> evolves s0 (s\<lparr>requests := requests s @ m\<rparr>)"
  by (auto simp: evolves_def reports_def split: option.splits)

lemma evolves_write:
  "evolves s0 s \<Longrightarrow> handle s = Some (p, buf) \<Longrightarrow> evolves s0 (s\<lparr>handle := Some (p, buf @ m)\<rparr>)"
  by (auto simp: evolves_def reports_def split: option.splits)

lemma sound_Done [simp]: "sound s0 (Done a s) = evolves s0 s"
  by (simp add: sound_def)

lemma sound_Stuck [simp]: "sound s0 (Stuck s) = evolves s0 s"
  by (simp add: sound_def)

lemma sound_Raised [simp]:
  "sound s0 (Raised e s) = (evolves s0 s \<and> (e = KeyboardInterrupt \<longrightarrow> sigint s = None))"
  by (auto simp: sound_def)

lemma sound_then_do:
  assumes "sound s0 m" and "\<And>a s1. evolves s0 s1 \<Longrightarrow> sound s0 (f a s1)"
  shows "sound s0 (then_do m f)"
  using assms by (cases m) auto

lemma sound_try_except:
  assumes "sound s0 m" and "\<And>e s1. evolves s0 s1 \<Longrightarrow> sound s0 (h e s1)"
  shows "sound s0 (try_except m h)"
  using assms by (cases m) auto

lemma sound_tick: "evolves s0 s \<Longrightarrow> sound s0 (tick s)"
  by (auto simp: tick_def split: option.splits nat.splits)

lemma sound_await: "evolves s0 s \<Longrightarrow> sound s0 (await s)"
  by (auto simp: await_def split: option.splits)

lemma sound_logging: "evolves s0 s \<Longrightarrow> \<not> is_report e \<Longrightarrow> sound s0 (logging l e s)"
  unfolding logging_def by (rule sound_then_do [OF sound_tick]) auto

lemma plain_Inr [simp]: "plain (Inr a)"
  by (simp add: plain_def)

lemma plain_Inl [simp]: "plain (Inl e) = (e \<noteq> KeyboardInterrupt)"
  by (simp add: plain_def)

lemma plain_bind_exn: "plain x \<Longrightarrow> (\<And>a. plain (f a)) \<Longrightarrow> plain (bind_exn x f)"
  by (cases x) auto

lemma plain_getitem [simp]: "plain (getitem d k)"
  by (simp add: getitem_def split: option.splits)

lemma plain_index [simp]: "plain (index xs i)"
  by (simp add: index_def)

lemma plain_py_int [simp]: "plain (py_int x)"
  by (simp add: py_int_def Let_def split: option.splits prod.splits)

lemma plain_int_at [simp]: "plain (int_at xs i)"
  unfolding int_at_def by (rule plain_bind_exn) simp_all

lemma plain_mk_datetime [simp]: "plain (mk_datetime y m d hh mm ss)"
  by (simp add: mk_datetime_def)

lemma plain_to_datetime [simp]: "plain (to_datetime x)"
  unfolding to_datetime_def Let_def by (intro plain_bind_exn) simp_all

lemma plain_make_row [simp]: "plain (make_row it)"
  unfolding make_row_def by (intro plain_bind_exn) simp_all

lemma plain_last_of [simp]: "plain (last_of xs)"
  by (simp add: last_of_def)

lemma plain_setitem [simp]: "plain (setitem c k v)"
  by (simp add: setitem_def split: cfile.splits)

lemma sound_lift_exn: "evolves s0 s \<Longrightarrow> plain x \<Longrightarrow> sound s0 (lift_exn x s)"
  by (cases x) auto

lemma is_report_simps [simp]:
  "\<not> is_report NewTokenAcquired" "\<not> is_report RefreshTokenUpdated"
  "\<not> is_report (FailedToUpdateRefreshToken e)" "\<not> is_report (StatusCode n)"
  "\<not> is_report (ErrorRefreshingToken e)" "\<not> is_report (PageInProgress n)"
  "\<not> is_report (ErrorOnPage n e)" "\<not> is_report (UnableToAcquireAccessToken e)"
  "\<not> is_report (PageSuccess n t)" "\<not> is_report Dashes" "\<not> is_report ScrapingInterrupted"
  "\<not> is_report (FileClosed p)" "\<not> is_report DefaultConfigCreated"
  by (simp_all add: is_report_def)

lemma sound_refresh_token: "evolves s0 s \<Longrightarrow> sound s0 (refresh_token t s)"
  unfolding refresh_token_def Let_def
  by (rule sound_then_do [OF sound_tick])
     (auto intro!: sound_await sound_then_do sound_logging sound_lift_exn evolves_requests
           split: list.splits http.splits option.splits)

lemma sound_read_json: "evolves s0 s \<Longrightarrow> sound s0 (read_json path s)"
  unfolding read_json_def
  by (rule sound_then_do [OF sound_tick]) (auto split: cfile.splits)

lemma sound_write_json: "evolves s0 s \<Longrightarrow> sound s0 (write_json path c s)"
  unfolding write_json_def
  by (rule sound_then_do [OF sound_tick]) auto

lemma sound_update_config: "evolves s0 s \<Longrightarrow> sound s0 (update_config_refresh_token path t s)"
  unfolding update_config_refresh_token_def
  by (intro sound_try_except sound_then_do sound_read_json sound_write_json sound_lift_exn
        sound_logging) simp_all

lemma sound_load_data: "evolves s0 s \<Longrightarrow> sound s0 (load_data tt at n l tg reply s)"
  unfolding load_data_def Let_def
  by (rule sound_then_do [OF sound_tick])
     (auto intro!: sound_await sound_then_do sound_logging evolves_requests
           split: http.splits option.splits)

lemma sound_write_line: "evolves s0 s \<Longrightarrow> sound s0 (write_line l s)"
  unfolding write_line_def
  by (rule sound_then_do [OF sound_tick]) (auto intro: evolves_write split: option.splits)

lemma sound_write_items: "evolves s0 s \<Longrightarrow> sound s0 (write_items items s)"
proof (induction items arbitrary: s)
  case Nil
  then show ?case by simp
next
  case (Cons it items)
  show ?case
    unfolding write_items.simps
    by (intro sound_then_do sound_lift_exn sound_write_line Cons.IH)
       (use Cons.prems in simp_all)
qed

lemma sound_reauth:
  "evolves s0 s \<Longrightarrow>
   sound s0 (try_except
     (then_do (refresh_token (ref_token s) s) (\<lambda>(tt, at, rt) s.
        then_do (update_config_refresh_token (config_path P) rt
                   (s\<lparr>token_type := tt, access_token := at, ref_token := rt\<rparr>)) (\<lambda>_ s.
        Done c s)))
     (\<lambda>e s. then_do (logging l (ev e) s) (\<lambda>_ s. Done c' s)))"
  if "\<And>e. \<not> is_report (ev e)"
  by (intro sound_try_except sound_then_do sound_refresh_token)
     (auto intro!: sound_then_do sound_update_config sound_logging that)

lemma sound_on_fetch_error: "evolves s0 s \<Longrightarrow> sound s0 (on_fetch_error P e s)"
  unfolding on_fetch_error_def Let_def
  apply (rule sound_then_do [OF sound_logging])
    apply simp
   apply simp
  subgoal for a s1
    using sound_reauth [of UnableToAcquireAccessToken s0 "s1\<lparr>error_count := error_count s1 + 1\<rparr>" P Continue WARNING Break]
    by auto
  done

lemma sound_process_page: "evolves s0 s \<Longrightarrow> sound s0 (process_page P items s)"
  unfolding process_page_def
  by (intro sound_then_do sound_lift_exn)
     (auto intro!: sound_then_do sound_lift_exn sound_write_items sound_logging plain_bind_exn)

lemma sound_iteration: "evolves s0 s \<Longrightarrow> sound s0 (iteration P reply s)"
proof -
  assume e: "evolves s0 s"
  have pre: "sound s0 (if \<not> repeat s then logging INFO (PageInProgress (page s)) s else Done () s)"
    using e by (auto intro: sound_logging)
  show ?thesis
    unfolding iteration_def
  proof (rule sound_then_do [OF pre])
    fix a s1
    assume e1: "evolves s0 s1"
    have ld: "sound s0 (load_data (token_type s1) (access_token s1) (page s1) (last_id s1)
                 (symbol P) reply s1)"
      by (rule sound_load_data [OF e1])
    show "sound s0 (case load_data (token_type s1) (access_token s1) (page s1) (last_id s1)
                 (symbol P) reply s1 of
            Done items s \<Rightarrow> process_page P items s
          | Raised e s \<Rightarrow> if is_Exception e then on_fetch_error P e s else Raised e s
          | Stuck s \<Rightarrow> Stuck s)"
      using ld
      by (cases "load_data (token_type s1) (access_token s1) (page s1) (last_id s1)
                 (symbol P) reply s1")
         (auto intro: sound_process_page sound_on_fetch_error simp: is_Exception_def)
  qed
qed

lemma sound_while_loop: "evolves s0 s \<Longrightarrow> sound s0 (while_loop P rs s)"
proof (induction rs arbitrary: s)
  case Nil
  then show ?case
    by (auto intro!: sound_then_do sound_iteration)
next
  case (Cons r rs)
  show ?case
    unfolding while_loop.simps
    using Cons.prems
    by (auto intro!: sound_then_do sound_iteration Cons.IH split: signal.splits)
qed

lemma sound_guarded: "evolves s0 s \<Longrightarrow> sound s0 (guarded P rs s)"
  unfolding guarded_def
  by (rule sound_then_do) (auto intro!: sound_write_line sound_while_loop)

subsection \<open>C4: a page with new content\<close>

text \<open>
  C4. The claim takes the cursor and the timestamp from the newest record of the page.
  The code takes them from the last item of the page, \<^verbatim>\<open>items[-1]\<close> (lines 255, 259, 269),
  whatever its age; in a page sent newest first that is the oldest record. With that
  amendment the claim holds. When a fetch succeeds with new content (a page whose items
  all have the four fields and a time \<^verbatim>\<open>to_datetime\<close> can read, and whose last id differs
  from \<open>last_id\<close>), with the destination open and no Ctrl-C pending, one pass of the loop
  does exactly this: \<open>repeat\<close> becomes False, \<open>last_id\<close> becomes the id of the last row of
  the page, every row of the page is written to the destination in the order of the page,
  \<open>date\<close> becomes the time of the last row, \<open>page\<close> grows by one and \<open>error_count\<close>
  becomes 0. Besides, the request is recorded and the pass is logged; nothing else
  changes.
\<close>

theorem new_content_updates:
  assumes "sigint s = None" and "handle s = Some (p, buf)"
    and "map make_row items = map Inr rows" and "rows \<noteq> []"
    and "r_id (last rows) \<noteq> last_id s"
  shows "iteration P (Some (Response 200 (Some items))) s
         = Done Continue
             (s\<lparr>last_id := r_id (last rows), numeric_id := False,
                date := r_time (last rows),
                page := page s + 1, error_count := 0, repeat := False,
                handle := Some (p, buf @ map Row rows),
                logged := logged s @ (if repeat s then [] else [(INFO, PageInProgress (page s))])
                          @ [(INFO, StatusCode 200),
                             (INFO, PageSuccess (page s) (r_time (last rows))),
                             (INFO, Dashes)],
                requests := requests s @ [ListPost (token_type s @ '' '' @ access_token s)
                                            (request_data (page s) (last_id s) (symbol P))]\<rparr>)"
  using assms by (rule iteration_new)

theorem new_content_updates_witness:
  "sigint world_open = None \<and> handle world_open = Some (''data.csv'', [Header])
   \<and> map make_row [item_a, item_b] = map Inr [row_a, row_b]
   \<and> r_id (last [row_a, row_b]) \<noteq> last_id world_open
   \<and> iteration params0 (Some (Response 200 (Some [item_a, item_b]))) world_open
     = Done Continue
         (world_open\<lparr>last_id := ''40'', date := r_time row_b, page := 1, error_count := 0,
            repeat := False,
            handle := Some (''data.csv'', [Header, Row row_a, Row row_b]),
            logged := [(INFO, PageInProgress 0), (INFO, StatusCode 200),
                       (INFO, PageSuccess 0 (r_time row_b)), (INFO, Dashes)],
            requests := [ListPost ''Bearer A1'' [(''tag'', ''X'')]]\<rparr>)"
proof -
  have h1: "sigint world_open = None" by (simp add: world_open_def world0_def)
  have h2: "handle world_open = Some (''data.csv'', [Header])"
    by (simp add: world_open_def world0_def)
  have h3: "map make_row [item_a, item_b] = map Inr [row_a, row_b]"
    by (simp add: make_row_item_a make_row_item_b)
  have h4: "[row_a, row_b] \<noteq> []" by simp
  have h5: "r_id (last [row_a, row_b]) \<noteq> last_id world_open"
    by (simp add: row_b_def world_open_def world0_def)
  show ?thesis
    using new_content_updates [OF h1 h2 h3 h4 h5, of params0] h1 h2 h3 h5
    by (simp add: world_open_def world0_def params0_def request_data_def row_b_def)
qed

text \<open>The claim as it was written fails on a page of two records sent newest first: the
  newest record is the first one, and the cursor and the timestamp are those of the
  second.\<close>

lemma dt_gt_row_a_row_b: "dt_gt (r_time row_a) (r_time row_b)"
  by code_simp

theorem new_content_takes_last_record:
  "map make_row [item_a, item_b] = [Inr row_a, Inr row_b]
   \<and> dt_gt (r_time row_a) (r_time row_b)
   \<and> (\<exists>s'. iteration params0 (Some (Response 200 (Some [item_a, item_b]))) world_open
            = Done Continue s'
          \<and> last_id s' = r_id row_b \<and> date s' = r_time row_b
          \<and> last_id s' \<noteq> r_id row_a \<and> date s' \<noteq> r_time row_a)"
proof -
  have h1: "sigint world_open = None" by (simp add: world_open_def world0_def)
  have h2: "handle world_open = Some (''data.csv'', [Header])"
    by (simp add: world_open_def world0_def)
  have h3: "map make_row [item_a, item_b] = map Inr [row_a, row_b]"
    by (simp add: make_row_item_a make_row_item_b)
  have h4: "[row_a, row_b] \<noteq> []" by simp
  have h5: "r_id (last [row_a, row_b]) \<noteq> last_id world_open"
    by (simp add: row_b_def world_open_def world0_def)
  have ne: "r_id row_b \<noteq> r_id row_a" "r_time row_b \<noteq> r_time row_a"
    by (simp_all add: row_a_def row_b_def)
  from iteration_new [OF h1 h2 h3 h4 h5, of params0] ne
  have "\<exists>s'. iteration params0 (Some (Response 200 (Some [item_a, item_b]))) world_open
            = Done Continue s'
          \<and> last_id s' = r_id row_b \<and> date s' = r_time row_b
          \<and> last_id s' \<noteq> r_id row_a \<and> date s' \<noteq> r_time row_a"
    by simp
  with h3 dt_gt_row_a_row_b show ?thesis by simp
qed

subsection \<open>C10: the token cannot be refreshed at startup\<close>

text \<open>
  C10. When the token refresh at startup fails (\<^verbatim>\<open>refresh_token\<close> raises an Exception),
  \<^verbatim>\<open>scrape_sahamyab\<close> ends before the destination is opened: the files on disk are as
  they were, no file is open, and the token request is the only request sent. (It
  returns; a Ctrl-C that arrives while the error is logged comes out as
  KeyboardInterrupt.)
\<close>

theorem startup_auth_failure_leaves_store:
  assumes "refresh_token rt (init_locals rt s) = Raised e s1" and "is_Exception e"
  shows "\<exists>s'. (scrape_sahamyab P rt rs s = Done () s'
               \<or> scrape_sahamyab P rt rs s = Raised KeyboardInterrupt s')
             \<and> disk s' = disk s \<and> handle s' = handle s
             \<and> requests s' = requests s @ [TokenPost rt]"
proof -
  have rt: "ref_token (init_locals rt s) = rt" by (simp add: init_locals_def)
  have s1: "disk s1 = disk s" "handle s1 = handle s" "requests s1 = requests s @ [TokenPost rt]"
    using refresh_token_raised [OF assms(1)] assms(2) by (simp_all add: init_locals_def)
  have ir: "initial_refresh P (init_locals rt s)
            = then_do (logging ERROR (ErrorRefreshingToken e) s1) (\<lambda>_ s. Done Return s)"
    using assms by (simp add: initial_refresh_def rt)
  from logging_cases [of ERROR "ErrorRefreshingToken e" s1] show ?thesis
    by (auto simp: scrape_sahamyab_def prologue_def ir s1)
qed

theorem startup_auth_failure_leaves_store_witness:
  "refresh_token ''R0'' (init_locals ''R0'' world_denied)
   = Raised (RuntimeError UnableToAcquireToken)
       ((init_locals ''R0'' world_denied)\<lparr>auth_replies := [], requests := [TokenPost ''R0'']\<rparr>)
   \<and> is_Exception (RuntimeError UnableToAcquireToken)
   \<and> (\<exists>s'. scrape_sahamyab params0 ''R0'' [Response 200 (Some [item_a])] world_denied
            = Done () s'
          \<and> disk s' ''data.csv'' = None \<and> handle s' = None
          \<and> requests s' = [TokenPost ''R0''])"
proof -
  have h1: "refresh_token ''R0'' (init_locals ''R0'' world_denied)
            = Raised (RuntimeError UnableToAcquireToken)
                ((init_locals ''R0'' world_denied)\<lparr>auth_replies := [],
                   requests := [TokenPost ''R0'']\<rparr>)"
    by (simp add: refresh_token_def init_locals_def world_denied_def world0_def)
  have h2: "is_Exception (RuntimeError UnableToAcquireToken)"
    by (simp add: is_Exception_def)
  have q: "sigint ((init_locals ''R0'' world_denied)\<lparr>auth_replies := [],
                     requests := [TokenPost ''R0'']\<rparr>) = None"
    by (simp add: init_locals_def world_denied_def world0_def)
  have run: "\<exists>s'. scrape_sahamyab params0 ''R0'' [Response 200 (Some [item_a])] world_denied
                  = Done () s'"
    using h1 h2 q
    by (simp add: scrape_sahamyab_def prologue_def initial_refresh_def init_locals_def)
  from startup_auth_failure_leaves_store
         [OF h1 h2, of params0 "[Response 200 (Some [item_a])]"] run
  show ?thesis
    using h1 h2 by (auto simp: world_denied_def world0_def)
qed

subsection \<open>Operations with no Ctrl-C pending, and on an open destination\<close>

lemma keeps_refl [simp]: "keeps s s"
  by (simp add: keeps_def)

lemma keeps_trans: "keeps s0 s1 \<Longrightarrow> keeps s1 s2 \<Longrightarrow> keeps s0 s2"
  by (auto simp: keeps_def)

lemma evolves_keeps: "evolves s s' \<Longrightarrow> keeps s s'"
  by (auto simp: evolves_def keeps_def)

lemma refresh_token_quiet_ok:
  assumes "sigint s = None" and "auth_replies s = a # rest" and "auth_grant a = Some (tt, at, rt)"
  shows "refresh_token t s
         = Done (tt, at, rt)
             (s\<lparr>auth_replies := rest, logged := logged s @ [(INFO, NewTokenAcquired)],
                requests := requests s @ [TokenPost t]\<rparr>)"
  using assms
  by (auto simp: refresh_token_def auth_grant_def getitem_def Let_def
      split: http.splits option.splits if_splits)

lemma close_file_quiet:
  "sigint s = None \<Longrightarrow> handle s = Some (p, buf) \<Longrightarrow>
   close_file s
   = Done () (s\<lparr>disk := (disk s)(p \<mapsto> (case disk s p of None \<Rightarrow> [] | Some ls \<Rightarrow> ls) @ buf),
                handle := None\<rparr>)"
  by (simp add: close_file_def)

lemma evolves_handle:
  "evolves s s' \<Longrightarrow> handle s = Some (p, buf) \<Longrightarrow> \<exists>m. handle s' = Some (p, buf @ m)"
  by (auto simp: evolves_def)

lemma evolves_disk: "evolves s s' \<Longrightarrow> disk s' = disk s"
  by (simp add: evolves_def)

subsection \<open>C8: Ctrl-C inside the loop\<close>

text \<open>
  C8. When a Ctrl-C ends the body of the outer \<^verbatim>\<open>try\<close> (lines 224 to 277, the loop
  included) while the destination \<open>p\<close> is open, the statement still closes the
  destination and then returns: afterwards no file is open, and the file on disk holds
  what it held before, followed by what was buffered, followed by every line written up to
  the interruption. The other files are as they were. (One Ctrl-C is considered: the
  state holds at most one pending interruption.)
\<close>

theorem interrupt_closes_store:
  assumes "guarded P rs s = Raised KeyboardInterrupt s1" and "handle s = Some (p, buf)"
  shows "\<exists>written s2.
           handle s1 = Some (p, buf @ written)
           \<and> try_statement P rs s = Done Return s2
           \<and> handle s2 = None
           \<and> disk s2 p = Some ((case disk s p of None \<Rightarrow> [] | Some ls \<Rightarrow> ls) @ buf @ written)
           \<and> (\<forall>q. q \<noteq> p \<longrightarrow> disk s2 q = disk s q)"
proof -
  have snd: "sound s (guarded P rs s)"
    by (rule sound_guarded) simp
  from snd assms(1) have ev: "evolves s s1" and q: "sigint s1 = None"
    by simp_all
  from evolves_handle [OF ev assms(2)] obtain m where h1: "handle s1 = Some (p, buf @ m)" ..
  have d1: "disk s1 = disk s" by (rule evolves_disk [OF ev])
  let ?s' = "s1\<lparr>logged := logged s1 @ [(WARNING, ScrapingInterrupted)]\<rparr>"
  have c: "close_file ?s'
           = Done () (?s'\<lparr>disk := (disk ?s')(p \<mapsto> (case disk ?s' p of None \<Rightarrow> [] | Some ls \<Rightarrow> ls)
                                                    @ (buf @ m)),
                         handle := None\<rparr>)"
    by (rule close_file_quiet) (use q h1 in simp_all)
  show ?thesis
    using q h1 d1 assms(1)
    by (simp add: try_statement_def except_KeyboardInterrupt_def try_finally_def
        finally_block_def c)
qed

subsection \<open>Facts about the example worlds\<close>

lemma dt_gt_now: "dt_gt (now world0) (start_date params0)"
  by code_simp

lemmas item_a_fields = make_row_Inr [OF make_row_item_a]

lemma row_a_id: "r_id row_a = ''41''"
  by (simp add: row_a_def)

lemma run_interrupted:
  "guarded params0 [Response 200 (Some [item_a])] (world_started\<lparr>sigint := Some 5\<rparr>)
   = Raised KeyboardInterrupt
       (world_started\<lparr>sigint := None, last_id := ''41'', date := r_time row_a, repeat := False,
          handle := Some (''data.csv'', [Header, Row row_a]),
          logged := [(INFO, PageInProgress 0), (INFO, StatusCode 200)],
          requests := [ListPost ''Bearer A1'' [(''tag'', ''X'')]]\<rparr>)"
  using dt_gt_now
  by (simp add: guarded_def world_started_def world0_def tick_def write_line_def logging_def
      iteration_def load_data_def request_data_def process_page_def last_of_def item_a_fields row_a_id
      make_row_item_a params0_def Let_def)

theorem interrupt_closes_store_witness:
  "guarded params0 [Response 200 (Some [item_a])] (world_started\<lparr>sigint := Some 5\<rparr>)
   = Raised KeyboardInterrupt
       (world_started\<lparr>sigint := None, last_id := ''41'', date := r_time row_a, repeat := False,
          handle := Some (''data.csv'', [Header, Row row_a]),
          logged := [(INFO, PageInProgress 0), (INFO, StatusCode 200)],
          requests := [ListPost ''Bearer A1'' [(''tag'', ''X'')]]\<rparr>)
   \<and> handle (world_started\<lparr>sigint := Some 5\<rparr>) = Some (''data.csv'', [])
   \<and> (\<exists>s2. try_statement params0 [Response 200 (Some [item_a])]
               (world_started\<lparr>sigint := Some 5\<rparr>) = Done Return s2
           \<and> handle s2 = None
           \<and> disk s2 ''data.csv'' = Some [Header, Row row_a])"
proof -
  have h: "handle (world_started\<lparr>sigint := Some 5\<rparr>) = Some (''data.csv'', [])"
    by (simp add: world_started_def world0_def)
  have d: "disk (world_started\<lparr>sigint := Some 5\<rparr>) ''data.csv'' = Some []"
    by (simp add: world_started_def world0_def)
  from interrupt_closes_store [OF run_interrupted h]
  obtain written s2 where
    w: "Some (''data.csv'', [Header, Row row_a]) = Some (''data.csv'', [] @ written)"
    and t: "try_statement params0 [Response 200 (Some [item_a])]
              (world_started\<lparr>sigint := Some 5\<rparr>) = Done Return s2"
    and c: "handle s2 = None"
    and k: "disk s2 ''data.csv'' = Some ([] @ [] @ written)"
    unfolding d by auto
  from w have w': "written = [Header, Row row_a]" by simp
  have "\<exists>s2. try_statement params0 [Response 200 (Some [item_a])]
               (world_started\<lparr>sigint := Some 5\<rparr>) = Done Return s2
           \<and> handle s2 = None
           \<and> disk s2 ''data.csv'' = Some [Header, Row row_a]"
    using t c k unfolding w' by auto
  with run_interrupted h show ?thesis by blast
qed

subsection \<open>What the whole function can do to the log and the requests\<close>

lemma keeps_locals [simp]:
  "keeps s0 (s\<lparr>last_id := a1\<rparr>) = keeps s0 s"
  "keeps s0 (s\<lparr>numeric_id := a0\<rparr>) = keeps s0 s"
  "keeps s0 (s\<lparr>date := a2\<rparr>) = keeps s0 s"
  "keeps s0 (s\<lparr>page := a3\<rparr>) = keeps s0 s"
  "keeps s0 (s\<lparr>token_type := a4\<rparr>) = keeps s0 s"
  "keeps s0 (s\<lparr>access_token := a5\<rparr>) = keeps s0 s"
  "keeps s0 (s\<lparr>ref_token := a6\<rparr>) = keeps s0 s"
  "keeps s0 (s\<lparr>error_count := a7\<rparr>) = keeps s0 s"
  "keeps s0 (s\<lparr>o_mode := a8\<rparr>) = keeps s0 s"
  "keeps s0 (s\<lparr>repeat := a9\<rparr>) = keeps s0 s"
  "keeps s0 (s\<lparr>sigint := b1\<rparr>) = keeps s0 s"
  "keeps s0 (s\<lparr>auth_replies := b2\<rparr>) = keeps s0 s"
  "keeps s0 (s\<lparr>cfiles := b3\<rparr>) = keeps s0 s"
  "keeps s0 (s\<lparr>disk := b4\<rparr>) = keeps s0 s"
  "keeps s0 (s\<lparr>handle := b5\<rparr>) = keeps s0 s"
  by (simp_all add: keeps_def reports_def)

lemma keeps_logged [simp]:
  "\<not> is_report e \<Longrightarrow> keeps s0 (s\<lparr>logged := logged s @ [(l, e)]\<rparr>) = keeps s0 s"
  by (simp add: keeps_def reports_def is_report_def)

lemma keeps_init_locals [simp]: "keeps s0 (init_locals rt s) = keeps s0 s"
  by (simp add: init_locals_def)

lemma keeps_then_do:
  assumes "keeps s0 (final m)" and "\<And>a s1. keeps s0 s1 \<Longrightarrow> keeps s0 (final (f a s1))"
  shows "keeps s0 (final (then_do m f))"
  using assms by (cases m) auto

lemma keeps_sound: "keeps s0 s1 \<Longrightarrow> sound s1 m \<Longrightarrow> keeps s0 (final m)"
  by (auto simp: sound_def intro: keeps_trans evolves_keeps)

lemma keeps_tick: "keeps s0 s \<Longrightarrow> keeps s0 (final (tick s))"
  by (auto simp: tick_def split: option.splits nat.splits)

lemma keeps_logging: "keeps s0 s \<Longrightarrow> \<not> is_report e \<Longrightarrow> keeps s0 (final (logging l e s))"
  unfolding logging_def by (rule keeps_then_do [OF keeps_tick]) auto

lemma keeps_initial_refresh: "keeps s0 s \<Longrightarrow> keeps s0 (final (initial_refresh P s))"
  unfolding initial_refresh_def
  by (erule keeps_sound) (rule sound_reauth, simp_all)

lemma keeps_read_csv_last_id: "keeps s0 s \<Longrightarrow> keeps s0 (final (read_csv_last_id path s))"
  unfolding read_csv_last_id_def
  by (rule keeps_then_do [OF keeps_tick])
     (auto split: option.splits list.splits csv_line.splits)

lemma keeps_choose_mode: "keeps s0 s \<Longrightarrow> keeps s0 (final (choose_mode P s))"
  unfolding choose_mode_def
  by (auto intro!: keeps_then_do keeps_read_csv_last_id)

lemma keeps_open_file: "keeps s0 s \<Longrightarrow> keeps s0 (final (open_file path mode s))"
  unfolding open_file_def
  by (rule keeps_then_do [OF keeps_tick]) auto

lemma keeps_close_file: "keeps s0 s \<Longrightarrow> keeps s0 (final (close_file s))"
  unfolding close_file_def
  by (rule keeps_then_do [OF keeps_tick]) (auto split: option.splits)

lemma keeps_prologue: "keeps s0 s \<Longrightarrow> keeps s0 (final (prologue P rt s))"
  unfolding prologue_def
  by (rule keeps_then_do [OF keeps_initial_refresh])
     (auto intro!: keeps_then_do keeps_choose_mode keeps_open_file split: completion.splits)

lemma keeps_finally_block: "keeps s0 s \<Longrightarrow> keeps s0 (final (finally_block P s))"
  unfolding finally_block_def
  by (rule keeps_then_do [OF keeps_close_file])
     (auto intro!: keeps_then_do keeps_logging)

lemma keeps_except_KeyboardInterrupt:
  assumes "keeps s0 (final m)" and "\<And>s1. keeps s0 s1 \<Longrightarrow> keeps s0 (final (h s1))"
  shows "keeps s0 (final (except_KeyboardInterrupt m h))"
  using assms by (cases m) (auto simp: except_KeyboardInterrupt_def)

lemma keeps_try_finally:
  assumes "keeps s0 (final m)" and "\<And>s1. keeps s0 s1 \<Longrightarrow> keeps s0 (final (fin s1))"
  shows "keeps s0 (final (try_finally m fin))"
proof (cases m)
  case (Done a s)
  with assms have "keeps s0 (final (fin s))" by simp
  with Done show ?thesis
    by (cases "fin s") (auto simp: try_finally_def split: completion.splits)
next
  case (Raised e s)
  with assms have "keeps s0 (final (fin s))" by simp
  with Raised show ?thesis
    by (cases "fin s") (auto simp: try_finally_def split: completion.splits)
next
  case (Stuck s)
  with assms show ?thesis by (simp add: try_finally_def)
qed

lemma keeps_guarded: "keeps s0 s \<Longrightarrow> keeps s0 (final (guarded P rs s))"
  by (erule keeps_sound) (rule sound_guarded, simp)

lemma keeps_try_statement: "keeps s0 s \<Longrightarrow> keeps s0 (final (try_statement P rs s))"
  unfolding try_statement_def
  by (intro keeps_try_finally keeps_except_KeyboardInterrupt keeps_finally_block keeps_logging
        keeps_guarded) simp_all

text \<open>The \<^verbatim>\<open>finally\<close> block ends in \<^verbatim>\<open>return\<close>, so the statement never falls through.\<close>

lemma finally_block_returns: "finally_block P s \<noteq> Done (Normal c) s'"
proof -
  have "\<And>s1. then_do (logging INFO (FileClosed (file_name P)) s1) (\<lambda>_ s. Done Return s)
             \<noteq> Done (Normal c) s'"
    subgoal for s1
      using logging_cases [of INFO "FileClosed (file_name P)" s1] by auto
    done
  then show ?thesis
    unfolding finally_block_def by (cases "close_file s") auto
qed

lemma try_statement_returns: "try_statement P rs s \<noteq> Done (Normal c) s'"
proof -
  have "\<And>m. try_finally m (finally_block P) \<noteq> Done (Normal c) s'"
    subgoal for m
      apply (cases m)
      subgoal for a s1
        using finally_block_returns [of P s1]
        by (cases "finally_block P s1") (auto simp: try_finally_def split: completion.splits)
      subgoal for e s1
        using finally_block_returns [of P s1]
        by (cases "finally_block P s1") (auto simp: try_finally_def split: completion.splits)
      subgoal by (simp add: try_finally_def)
      done
    done
  then show ?thesis by (simp add: try_statement_def)
qed

lemma scrape_keeps: "keeps s (final (scrape_sahamyab P rt rs s))"
  unfolding scrape_sahamyab_def
proof (rule keeps_then_do)
  show "keeps s (final (prologue P rt s))" by (rule keeps_prologue) simp
next
  fix c s1
  assume k: "keeps s s1"
  show "keeps s (final (case c of
            Return \<Rightarrow> Done () s1
          | Normal _ \<Rightarrow>
              then_do (try_statement P rs s1) (\<lambda>c s.
                case c of Return \<Rightarrow> Done () s | Normal _ \<Rightarrow> report P s)))"
  proof (cases c)
    case Return
    with k show ?thesis by simp
  next
    case (Normal u)
    have t: "keeps s (final (try_statement P rs s1))" by (rule keeps_try_statement [OF k])
    show ?thesis
      using t try_statement_returns [of P rs s1]
      by (cases "try_statement P rs s1") (auto simp: Normal split: completion.splits)
  qed
qed

subsection \<open>C2: the outcome report\<close>

text \<open>
  C2. The claim is that on exit of the loop, for any reason, the run reports either
  "error threshold reached" or "successfully done". The code does not: the \<^verbatim>\<open>finally\<close>
  block of line 281 ends in \<^verbatim>\<open>return\<close>, so lines 286 to 290 are never reached. Whatever the
  parameters, the token, the answers of the content endpoint and the world are, the
  outcome messages in the log after \<^verbatim>\<open>scrape_sahamyab\<close> are those that were there before.
\<close>

theorem no_outcome_report: "reports (final (scrape_sahamyab P rt rs s)) = reports s"
  using scrape_keeps [of s P rt rs] by (simp add: keeps_def)

lemma dt_gt_row_b: "\<not> dt_gt (r_time row_b) (start_date params0)"
  by code_simp

lemmas item_b_fields = make_row_Inr [OF make_row_item_b]

lemma row_b_id: "r_id row_b = ''40''"
  by (simp add: row_b_def)

lemma run_clean:
  "scrape_sahamyab params0 ''R0'' [Response 200 (Some [item_b])] world_granted
   = Done ()
       (world_granted\<lparr>last_id := ''40'', date := r_time row_b, page := 1,
          token_type := ''Bearer'', access_token := ''A1'', ref_token := ''R1'',
          error_count := 0, o_mode := ''w'', repeat := False, auth_replies := [],
          disk := (\<lambda>_. None)(''data.csv'' \<mapsto> [Header, Row row_b]), handle := None,
          logged := [(INFO, NewTokenAcquired),
                     (ERROR, FailedToUpdateRefreshToken FileNotFoundError),
                     (INFO, PageInProgress 0), (INFO, StatusCode 200),
                     (INFO, PageSuccess 0 (r_time row_b)), (INFO, Dashes),
                     (INFO, FileClosed ''data.csv'')],
          requests := [TokenPost ''R0'', ListPost ''Bearer A1'' [(''tag'', ''X'')]]\<rparr>)"
  using dt_gt_now dt_gt_row_b
  by (simp add: scrape_sahamyab_def prologue_def initial_refresh_def init_locals_def
      refresh_token_def token_reply_def getitem_def update_config_refresh_token_def
      read_json_def is_Exception_def choose_mode_def open_file_def
      try_statement_def guarded_def write_line_def iteration_def load_data_def
      request_data_def process_page_def last_of_def item_b_fields [unfolded getitem_def]
      row_b_id make_row_item_b
      except_KeyboardInterrupt_def try_finally_def finally_block_def close_file_def
      world_granted_def world0_def params0_def Let_def)

theorem no_outcome_report_witness:
  "scrape_sahamyab params0 ''R0'' [Response 200 (Some [item_b])] world_granted
   = Done () (final (scrape_sahamyab params0 ''R0'' [Response 200 (Some [item_b])] world_granted))
   \<and> \<not> dt_gt (date (final (scrape_sahamyab params0 ''R0'' [Response 200 (Some [item_b])]
                               world_granted))) (start_date params0)
   \<and> map snd (logged (final (scrape_sahamyab params0 ''R0'' [Response 200 (Some [item_b])]
                               world_granted)))
     = [NewTokenAcquired, FailedToUpdateRefreshToken FileNotFoundError, PageInProgress 0,
        StatusCode 200, PageSuccess 0 (r_time row_b), Dashes, FileClosed ''data.csv'']
   \<and> reports (final (scrape_sahamyab params0 ''R0'' [Response 200 (Some [item_b])]
                      world_granted)) = []"
proof -
  have "reports (final (scrape_sahamyab params0 ''R0'' [Response 200 (Some [item_b])]
                   world_granted)) = reports world_granted"
    by (rule no_outcome_report)
  moreover have "reports world_granted = []"
    by (simp add: reports_def world_granted_def world0_def)
  ultimately show ?thesis
    using dt_gt_row_b by (simp add: run_clean)
qed

lemma iteration_empty:
  assumes "sigint s = None"
  shows "iteration P (Some (Response 200 (Some []))) s
         = Raised IndexError
             (s\<lparr>logged := logged s @ (if repeat s then [] else [(INFO, PageInProgress (page s))])
                          @ [(INFO, StatusCode 200)],
                requests := requests s @ [ListPost (token_type s @ '' '' @ access_token s)
                                            (request_data (page s) (last_id s) (symbol P))]\<rparr>)"
  using assms
  by (cases "repeat s") (simp_all add: iteration_def load_data_page process_page_def last_of_def)

subsection \<open>C1: an empty page\<close>

text \<open>
  C1. The claim is that a successful fetch of an empty page is a stall: the repeat flag
  is set and the loop goes on. The code does not: \<^verbatim>\<open>items[-1]\<close> (line 255) raises
  IndexError on the empty list, outside the inner \<^verbatim>\<open>try\<close>, and the loop ends there, with
  the answers still to come left unread. The cursor, the destination and \<open>error_count\<close>
  are indeed untouched, but so is \<open>repeat\<close>. (The \<^verbatim>\<open>finally\<close> block then returns, which
  drops the exception: the second part of the example below.)
\<close>

theorem empty_page_ends_loop:
  assumes "sigint s = None" and "dt_gt (date s) (start_date P)"
  shows "while_loop P (Response 200 (Some []) # rs) s
         = Raised IndexError
             (s\<lparr>logged := logged s @ (if repeat s then [] else [(INFO, PageInProgress (page s))])
                          @ [(INFO, StatusCode 200)],
                requests := requests s @ [ListPost (token_type s @ '' '' @ access_token s)
                                            (request_data (page s) (last_id s) (symbol P))]\<rparr>)"
  using assms by (simp add: iteration_empty)

lemma world_started_quiet: "sigint world_started = None"
  by (simp add: world_started_def world0_def)

lemma world_started_date: "dt_gt (date world_started) (start_date params0)"
  using dt_gt_now by (simp add: world_started_def world0_def)

theorem empty_page_ends_loop_witness:
  "sigint world_started = None \<and> dt_gt (date world_started) (start_date params0)
   \<and> while_loop params0 [Response 200 (Some []), Response 200 (Some [item_a])] world_started
     = Raised IndexError
         (world_started\<lparr>logged := [(INFO, PageInProgress 0), (INFO, StatusCode 200)],
            requests := [ListPost ''Bearer A1'' [(''tag'', ''X'')]]\<rparr>)
   \<and> try_statement params0 [Response 200 (Some []), Response 200 (Some [item_a])] world_started
     = Done Return
         (world_started\<lparr>disk := (\<lambda>_. None)(''data.csv'' \<mapsto> [Header]), handle := None,
            logged := [(INFO, PageInProgress 0), (INFO, StatusCode 200),
                       (INFO, FileClosed ''data.csv'')],
            requests := [ListPost ''Bearer A1'' [(''tag'', ''X'')]]\<rparr>)"
proof -
  have l: "while_loop params0 [Response 200 (Some []), Response 200 (Some [item_a])] world_started
     = Raised IndexError
         (world_started\<lparr>logged := [(INFO, PageInProgress 0), (INFO, StatusCode 200)],
            requests := [ListPost ''Bearer A1'' [(''tag'', ''X'')]]\<rparr>)"
    using empty_page_ends_loop [OF world_started_quiet world_started_date,
            of "[Response 200 (Some [item_a])]"]
    by (simp add: world_started_def world0_def params0_def request_data_def)
  have r: "world_started\<lparr>repeat := False\<rparr> = world_started"
    by (simp add: world_started_def world0_def)
  have t: "try_statement params0 [Response 200 (Some []), Response 200 (Some [item_a])]
             world_started
     = Done Return
         (world_started\<lparr>disk := (\<lambda>_. None)(''data.csv'' \<mapsto> [Header]), handle := None,
            logged := [(INFO, PageInProgress 0), (INFO, StatusCode 200),
                       (INFO, FileClosed ''data.csv'')],
            requests := [ListPost ''Bearer A1'' [(''tag'', ''X'')]]\<rparr>)"
    using dt_gt_now
    by (simp add: try_statement_def guarded_def write_line_def iteration_def load_data_def
        request_data_def process_page_def last_of_def
        except_KeyboardInterrupt_def try_finally_def finally_block_def close_file_def
        world_started_def world0_def params0_def Let_def)
  from l t world_started_quiet world_started_date show ?thesis by simp
qed

subsection \<open>Updating the configuration file\<close>

lemma logging_raises: "logging l e s = Raised x s' \<Longrightarrow> x = KeyboardInterrupt"
  using logging_cases [of l e s] by auto

lemma update_config_quiet:
  assumes "sigint s = None"
  shows "update_config_refresh_token path tok s
         = Done ()
             (case cfiles s path of
                Absent \<Rightarrow>
                  s\<lparr>logged := logged s @ [(ERROR, FailedToUpdateRefreshToken FileNotFoundError)]\<rparr>
              | Unreadable \<Rightarrow>
                  s\<lparr>logged := logged s @ [(ERROR, FailedToUpdateRefreshToken PermissionError)]\<rparr>
              | Unparsable \<Rightarrow>
                  s\<lparr>logged := logged s @ [(ERROR, FailedToUpdateRefreshToken JSONDecodeError)]\<rparr>
              | NotObject \<Rightarrow>
                  s\<lparr>logged := logged s @ [(ERROR, FailedToUpdateRefreshToken TypeError)]\<rparr>
              | Object kv \<Rightarrow>
                  if readonly s path
                  then s\<lparr>logged := logged s
                                   @ [(ERROR, FailedToUpdateRefreshToken PermissionError)]\<rparr>
                  else s\<lparr>cfiles := (cfiles s)
                                      (path := Object (AList.update ''ref_token'' (JStr tok) kv)),
                         logged := logged s @ [(INFO, RefreshTokenUpdated)]\<rparr>)"
  using assms
  by (cases "cfiles s path")
     (simp_all add: update_config_refresh_token_def read_json_def write_json_def setitem_def
        is_Exception_def)

lemma update_config_raises:
  assumes "update_config_refresh_token path tok s = Raised e s'"
  shows "e = KeyboardInterrupt"
proof -
  let ?m = "then_do (read_json path s) (\<lambda>config s.
        then_do (lift_exn (setitem config ''ref_token'' (JStr tok)) s) (\<lambda>config s.
        then_do (write_json path config s) (\<lambda>_ s.
        logging INFO RefreshTokenUpdated s)))"
  have u: "update_config_refresh_token path tok s
           = try_except ?m (\<lambda>e s. logging ERROR (FailedToUpdateRefreshToken e) s)"
    by (simp add: update_config_refresh_token_def)
  show ?thesis
  proof (cases ?m)
    case (Done a s1)
    with assms u show ?thesis by simp
  next
    case (Raised x s1)
    with assms u show ?thesis
      by (auto simp: is_Exception_def split: if_splits dest: logging_raises)
  next
    case (Stuck s1)
    with assms u show ?thesis by simp
  qed
qed

lemma update_config_state:
  assumes "sigint s = None"
  shows "\<exists>cf lg. update_config_refresh_token path tok s
                 = Done () (s\<lparr>cfiles := cf, logged := logged s @ lg\<rparr>)"
proof -
  have e: "\<And>l. s\<lparr>logged := l\<rparr> = s\<lparr>cfiles := cfiles s, logged := l\<rparr>" by simp
  show ?thesis
    unfolding update_config_quiet [OF assms]
    by (cases "cfiles s path") (auto intro: e)
qed

lemma initial_refresh_granted:
  assumes "sigint s = None" and "auth_replies s = a # rest" and "auth_grant a = Some (tt, at, rt)"
  shows "\<exists>cf lg. initial_refresh P s
           = Done (Normal ())
               (s\<lparr>token_type := tt, access_token := at, ref_token := rt, auth_replies := rest,
                  cfiles := cf, logged := logged s @ (INFO, NewTokenAcquired) # lg,
                  requests := requests s @ [TokenPost (ref_token s)]\<rparr>)"
proof -
  let ?s1 = "s\<lparr>auth_replies := rest, logged := logged s @ [(INFO, NewTokenAcquired)],
                requests := requests s @ [TokenPost (ref_token s)],
                token_type := tt, access_token := at, ref_token := rt\<rparr>"
  have q: "sigint ?s1 = None" using assms(1) by simp
  from update_config_state [OF q, of "config_path P" rt] obtain cf lg where
    u: "update_config_refresh_token (config_path P) rt ?s1
        = Done () (?s1\<lparr>cfiles := cf, logged := logged ?s1 @ lg\<rparr>)" by blast
  have "initial_refresh P s = Done (Normal ()) (?s1\<lparr>cfiles := cf, logged := logged ?s1 @ lg\<rparr>)"
    by (simp add: initial_refresh_def refresh_token_quiet_ok [OF assms] u)
  then show ?thesis
    by (intro exI [of _ cf] exI [of _ lg]) simp
qed

subsection \<open>C9: the refresh token cannot be saved\<close>

text \<open>
  C9. \<^verbatim>\<open>update_config_refresh_token\<close> never lets an exception out: whatever the path, the
  token and the state of the configuration file are, what it raises is not an
  \<^verbatim>\<open>Exception\<close> (only the KeyboardInterrupt of a Ctrl-C passes the handler of line 129). With
  no Ctrl-C pending it returns, and the result is the following: a file that is missing,
  unreadable, not JSON, not a JSON object or not writable is left as it is and the
  failure is logged as an error; otherwise the token is replaced in the file. So a token
  that cannot be saved does not stop the scrape: when the token endpoint grants
  \<open>(tt, at, rt)\<close>, the refresh at startup goes on with these three in memory, whatever the
  state of the configuration file.
\<close>

theorem config_update_never_raises:
  "(\<forall>e s'. update_config_refresh_token path tok s = Raised e s' \<longrightarrow> \<not> is_Exception e)
   \<and> (sigint s = None \<longrightarrow>
        update_config_refresh_token path tok s
        = Done ()
            (case cfiles s path of
               Absent \<Rightarrow>
                 s\<lparr>logged := logged s @ [(ERROR, FailedToUpdateRefreshToken FileNotFoundError)]\<rparr>
             | Unreadable \<Rightarrow>
                 s\<lparr>logged := logged s @ [(ERROR, FailedToUpdateRefreshToken PermissionError)]\<rparr>
             | Unparsable \<Rightarrow>
                 s\<lparr>logged := logged s @ [(ERROR, FailedToUpdateRefreshToken JSONDecodeError)]\<rparr>
             | NotObject \<Rightarrow>
                 s\<lparr>logged := logged s @ [(ERROR, FailedToUpdateRefreshToken TypeError)]\<rparr>
             | Object kv \<Rightarrow>
                 if readonly s path
                 then s\<lparr>logged := logged s
                                  @ [(ERROR, FailedToUpdateRefreshToken PermissionError)]\<rparr>
                 else s\<lparr>cfiles := (cfiles s)
                                     (path := Object (AList.update ''ref_token'' (JStr tok) kv)),
                        logged := logged s @ [(INFO, RefreshTokenUpdated)]\<rparr>))
   \<and> (sigint s = None \<and> auth_replies s = a # rest \<and> auth_grant a = Some (tt, at, rt) \<longrightarrow>
        (\<exists>s'. initial_refresh P s = Done (Normal ()) s'
              \<and> token_type s' = tt \<and> access_token s' = at \<and> ref_token s' = rt))"
proof (intro conjI allI impI)
  fix e s'
  assume "update_config_refresh_token path tok s = Raised e s'"
  then show "\<not> is_Exception e"
    by (simp add: update_config_raises is_Exception_def)
next
  assume "sigint s = None"
  then show "update_config_refresh_token path tok s
        = Done ()
            (case cfiles s path of
               Absent \<Rightarrow>
                 s\<lparr>logged := logged s @ [(ERROR, FailedToUpdateRefreshToken FileNotFoundError)]\<rparr>
             | Unreadable \<Rightarrow>
                 s\<lparr>logged := logged s @ [(ERROR, FailedToUpdateRefreshToken PermissionError)]\<rparr>
             | Unparsable \<Rightarrow>
                 s\<lparr>logged := logged s @ [(ERROR, FailedToUpdateRefreshToken JSONDecodeError)]\<rparr>
             | NotObject \<Rightarrow>
                 s\<lparr>logged := logged s @ [(ERROR, FailedToUpdateRefreshToken TypeError)]\<rparr>
             | Object kv \<Rightarrow>
                 if readonly s path
                 then s\<lparr>logged := logged s
                                  @ [(ERROR, FailedToUpdateRefreshToken PermissionError)]\<rparr>
                 else s\<lparr>cfiles := (cfiles s)
                                     (path := Object (AList.update ''ref_token'' (JStr tok) kv)),
                        logged := logged s @ [(INFO, RefreshTokenUpdated)]\<rparr>)"
    by (rule update_config_quiet)
next
  assume a: "sigint s = None \<and> auth_replies s = a # rest \<and> auth_grant a = Some (tt, at, rt)"
  then have "sigint s = None" "auth_replies s = a # rest" "auth_grant a = Some (tt, at, rt)"
    by simp_all
  from initial_refresh_granted [OF this, of P]
  show "\<exists>s'. initial_refresh P s = Done (Normal ()) s'
              \<and> token_type s' = tt \<and> access_token s' = at \<and> ref_token s' = rt"
    by auto
qed

theorem config_update_never_raises_witness:
  "sigint world_granted = None
   \<and> update_config_refresh_token ''config.json'' ''R1'' world_granted
     = Done () (world_granted\<lparr>logged := [(ERROR, FailedToUpdateRefreshToken FileNotFoundError)]\<rparr>)
   \<and> sigint (init_locals ''R0'' world_granted) = None
   \<and> auth_replies (init_locals ''R0'' world_granted) = [token_reply]
   \<and> auth_grant token_reply = Some (''Bearer'', ''A1'', ''R1'')
   \<and> (\<exists>s'. initial_refresh params0 (init_locals ''R0'' world_granted) = Done (Normal ()) s'
            \<and> token_type s' = ''Bearer'' \<and> access_token s' = ''A1'' \<and> ref_token s' = ''R1'')
   \<and> update_config_refresh_token ''config.json'' ''R1'' (world_granted\<lparr>sigint := Some 0\<rparr>)
     = Raised KeyboardInterrupt (world_granted\<lparr>sigint := None\<rparr>)
   \<and> \<not> is_Exception KeyboardInterrupt"
proof -
  have k: "update_config_refresh_token ''config.json'' ''R1'' (world_granted\<lparr>sigint := Some 0\<rparr>)
           = Raised KeyboardInterrupt (world_granted\<lparr>sigint := None\<rparr>)"
    by (simp add: update_config_refresh_token_def read_json_def tick_def is_Exception_def)
  have n: "\<not> is_Exception KeyboardInterrupt"
    using config_update_never_raises [where s = "world_granted\<lparr>sigint := Some 0\<rparr>"
        and path = "''config.json''" and tok = "''R1''"] k
    by blast
  have q: "sigint world_granted = None" "cfiles world_granted ''config.json'' = Absent"
    "logged world_granted = []"
    by (simp_all add: world_granted_def world0_def)
  have q': "sigint (init_locals ''R0'' world_granted) = None"
    "auth_replies (init_locals ''R0'' world_granted) = [token_reply]"
    by (simp_all add: init_locals_def world_granted_def world0_def)
  have g: "auth_grant token_reply = Some (''Bearer'', ''A1'', ''R1'')"
    by (simp add: auth_grant_def token_reply_def)
  have u: "update_config_refresh_token ''config.json'' ''R1'' world_granted
     = Done () (world_granted\<lparr>logged := [(ERROR, FailedToUpdateRefreshToken FileNotFoundError)]\<rparr>)"
    using config_update_never_raises [where s = world_granted and path = "''config.json''"
        and tok = "''R1''"] q
    by simp
  have i: "\<exists>s'. initial_refresh params0 (init_locals ''R0'' world_granted) = Done (Normal ()) s'
            \<and> token_type s' = ''Bearer'' \<and> access_token s' = ''A1'' \<and> ref_token s' = ''R1''"
    using config_update_never_raises [where s = "init_locals ''R0'' world_granted"
        and a = token_reply and rest = "[]" and tt = "''Bearer''" and at = "''A1''"
        and rt = "''R1''" and P = params0] q' g
    by simp
  from q(1) u q' g i k n show ?thesis by simp
qed

subsection \<open>A failed fetch\<close>

lemma refresh_token_quiet_fail:
  assumes "sigint s = None" and "auth_replies s = a # rest" and "auth_grant a = None"
  shows "\<exists>e lg. is_Exception e
           \<and> refresh_token t s
             = Raised e (s\<lparr>auth_replies := rest, logged := logged s @ lg,
                          requests := requests s @ [TokenPost t]\<rparr>)"
proof -
  have ex: "\<And>e lg. is_Exception e \<Longrightarrow>
     refresh_token t s
       = Raised e (s\<lparr>auth_replies := rest, logged := logged s @ lg,
                    requests := requests s @ [TokenPost t]\<rparr>) \<Longrightarrow> ?thesis"
    by blast
  show ?thesis
  proof (cases a)
    case NoConnection
    show ?thesis
      by (rule ex [of ConnectionError "[]"])
         (use assms NoConnection in \<open>simp_all add: refresh_token_def is_Exception_def\<close>)
  next
    case (Response code body)
    show ?thesis
    proof (cases "code = 200")
      case False
      show ?thesis
        by (rule ex [of "RuntimeError UnableToAcquireToken" "[]"])
           (use assms Response False in \<open>simp_all add: refresh_token_def is_Exception_def\<close>)
    next
      case True
      show ?thesis
      proof (cases body)
        case None
        show ?thesis
          by (rule ex [of JSONDecodeError "[]"])
             (use assms Response True None in
               \<open>simp_all add: refresh_token_def is_Exception_def\<close>)
      next
        case (Some kv)
        consider "map_of kv ''token_type'' = None"
          | tt where "map_of kv ''token_type'' = Some tt" "map_of kv ''access_token'' = None"
          | tt at where "map_of kv ''token_type'' = Some tt" "map_of kv ''access_token'' = Some at"
              "map_of kv ''refresh_token'' = None"
          using assms(3) Response True Some
          by (auto simp: auth_grant_def split: option.splits)
        then show ?thesis
        proof cases
          case 1
          show ?thesis
            by (rule ex [of "KeyError ''token_type''" "[(INFO, NewTokenAcquired)]"])
               (use assms Response True Some 1 in
                 \<open>simp_all add: refresh_token_def is_Exception_def getitem_def\<close>)
        next
          case 2
          show ?thesis
            by (rule ex [of "KeyError ''access_token''" "[(INFO, NewTokenAcquired)]"])
               (use assms Response True Some 2 in
                 \<open>simp_all add: refresh_token_def is_Exception_def getitem_def\<close>)
        next
          case 3
          show ?thesis
            by (rule ex [of "KeyError ''refresh_token''" "[(INFO, NewTokenAcquired)]"])
               (use assms Response True Some 3 in
                 \<open>simp_all add: refresh_token_def is_Exception_def getitem_def\<close>)
        qed
      qed
    qed
  qed
qed

lemma iteration_error:
  assumes "sigint s = None" and "fetch_error r = Some e"
  shows "iteration P (Some r) s
         = on_fetch_error P e
             (s\<lparr>logged := logged s @ fetch_log r s,
                requests := requests s @ [page_request P s]\<rparr>)"
proof (cases "repeat s")
  case True
  then show ?thesis
    using assms fetch_error_is_Exception [OF assms(2)]
    by (simp add: iteration_def load_data_error [OF _ assms(2)] fetch_log_def page_request_def
        split: http.splits)
next
  case False
  then show ?thesis
    using assms fetch_error_is_Exception [OF assms(2)]
    by (simp add: iteration_def load_data_error [OF _ assms(2)] fetch_log_def page_request_def
        split: http.splits)
qed

lemma on_fetch_error_plain:
  assumes "sigint s = None" and "error_count s + 1 \<noteq> error_thold P"
  shows "on_fetch_error P e s
         = Done (if error_thold P + 5 \<le> error_count s + 1 then Break else Continue)
             (s\<lparr>error_count := error_count s + 1,
                logged := logged s @ [(ERROR, ErrorOnPage (page s) e)]\<rparr>)"
  using assms by (simp add: on_fetch_error_def Let_def)

lemma on_fetch_error_reauth_fail:
  assumes "sigint s = None" and "error_count s + 1 = error_thold P"
    and "auth_replies s = a # rest" and "auth_grant a = None"
  shows "\<exists>e' lg. on_fetch_error P e s
           = Done Break
               (s\<lparr>error_count := error_count s + 1, auth_replies := rest,
                  logged := logged s @ (ERROR, ErrorOnPage (page s) e) # lg
                            @ [(WARNING, UnableToAcquireAccessToken e')],
                  requests := requests s @ [TokenPost (ref_token s)]\<rparr>)"
proof -
  let ?s1 = "s\<lparr>logged := logged s @ [(ERROR, ErrorOnPage (page s) e)],
               error_count := error_count s + 1\<rparr>"
  have q: "sigint ?s1 = None" "auth_replies ?s1 = a # rest"
    using assms by simp_all
  from refresh_token_quiet_fail [OF q assms(4), of "ref_token s"] obtain e' lg where
    x: "is_Exception e'"
    and r: "refresh_token (ref_token s) ?s1
            = Raised e' (?s1\<lparr>auth_replies := rest, logged := logged ?s1 @ lg,
                            requests := requests ?s1 @ [TokenPost (ref_token s)]\<rparr>)"
    by blast
  have "on_fetch_error P e s
        = Done Break
            (s\<lparr>error_count := error_count s + 1, auth_replies := rest,
               logged := logged s @ (ERROR, ErrorOnPage (page s) e) # lg
                         @ [(WARNING, UnableToAcquireAccessToken e')],
               requests := requests s @ [TokenPost (ref_token s)]\<rparr>)"
    using assms(1,2) x r by (simp add: on_fetch_error_def Let_def)
  then show ?thesis by blast
qed

lemma on_fetch_error_reauth_ok:
  assumes "sigint s = None" and "error_count s + 1 = error_thold P"
    and "auth_replies s = a # rest" and "auth_grant a = Some (tt, at, rt)"
  shows "\<exists>cf lg. on_fetch_error P e s
           = Done Continue
               (s\<lparr>token_type := tt, access_token := at, ref_token := rt,
                  error_count := error_count s + 1, auth_replies := rest, cfiles := cf,
                  logged := logged s @ (ERROR, ErrorOnPage (page s) e)
                            # (INFO, NewTokenAcquired) # lg,
                  requests := requests s @ [TokenPost (ref_token s)]\<rparr>)"
proof -
  let ?s1 = "s\<lparr>logged := logged s @ [(ERROR, ErrorOnPage (page s) e)],
               error_count := error_count s + 1\<rparr>"
  have q: "sigint ?s1 = None" "auth_replies ?s1 = a # rest"
    using assms by simp_all
  note r = refresh_token_quiet_ok [OF q assms(4), of "ref_token s"]
  let ?s2 = "?s1\<lparr>auth_replies := rest, logged := logged ?s1 @ [(INFO, NewTokenAcquired)],
                 requests := requests ?s1 @ [TokenPost (ref_token s)],
                 token_type := tt, access_token := at, ref_token := rt\<rparr>"
  have q2: "sigint ?s2 = None" using assms(1) by simp
  from update_config_state [OF q2, of "config_path P" rt] obtain cf lg where
    u: "update_config_refresh_token (config_path P) rt ?s2
        = Done () (?s2\<lparr>cfiles := cf, logged := logged ?s2 @ lg\<rparr>)"
    by blast
  have "on_fetch_error P e s = Done Continue (?s2\<lparr>cfiles := cf, logged := logged ?s2 @ lg\<rparr>)"
    using assms(1,2) r u by (simp add: on_fetch_error_def Let_def)
  then show ?thesis
    by (intro exI [of _ cf] exI [of _ lg]) simp
qed

lemma finally_block_requests: "requests (final (finally_block P s)) = requests s"
  by (auto simp: finally_block_def close_file_def logging_def tick_def
      split: option.splits nat.splits)

subsection \<open>C6: the errors of the content endpoint\<close>

text \<open>
  C6. A pass of the loop whose fetch fails (with no Ctrl-C pending) adds one to
  \<open>error_count\<close>, and then:
  \<^item> when the count has reached the threshold plus 5, the loop ends, whatever answers are
    still to come: the failed fetch is the last request;
  \<^item> when the count is neither the threshold nor that high, the loop goes on and no token
    is requested;
  \<^item> when the count is exactly the threshold and the token endpoint answers without
    granting a token, the loop ends after this one token request;
  \<^item> when the count is exactly the threshold and the token endpoint grants
    \<open>(tt, at, rt)\<close>, the loop goes on with these credentials after this one token request.
  The \<^verbatim>\<open>finally\<close> block that follows the loop sends no request.
\<close>

theorem error_cap_and_reauth:
  assumes "sigint s = None" and "dt_gt (date s) (start_date P)" and "fetch_error r = Some e"
  shows
    "(error_thold P + 5 \<le> error_count s + 1 \<longrightarrow>
        while_loop P (r # rs) s
        = Done ()
            (s\<lparr>error_count := error_count s + 1,
               logged := logged s @ fetch_log r s @ [(ERROR, ErrorOnPage (page s) e)],
               requests := requests s @ [page_request P s]\<rparr>))
     \<and> (error_count s + 1 \<noteq> error_thold P \<and> error_count s + 1 < error_thold P + 5 \<longrightarrow>
        iteration P (Some r) s
        = Done Continue
            (s\<lparr>error_count := error_count s + 1,
               logged := logged s @ fetch_log r s @ [(ERROR, ErrorOnPage (page s) e)],
               requests := requests s @ [page_request P s]\<rparr>))
     \<and> (error_count s + 1 = error_thold P \<and> auth_replies s = a # rest \<and> auth_grant a = None \<longrightarrow>
        (\<exists>s'. while_loop P (r # rs) s = Done () s'
              \<and> requests s' = requests s @ [page_request P s, TokenPost (ref_token s)]
              \<and> error_count s' = error_thold P \<and> auth_replies s' = rest))
     \<and> (error_count s + 1 = error_thold P \<and> auth_replies s = a # rest
          \<and> auth_grant a = Some (tt, at, rt) \<longrightarrow>
        (\<exists>s'. iteration P (Some r) s = Done Continue s'
              \<and> requests s' = requests s @ [page_request P s, TokenPost (ref_token s)]
              \<and> token_type s' = tt \<and> access_token s' = at \<and> ref_token s' = rt
              \<and> error_count s' = error_thold P \<and> auth_replies s' = rest))
     \<and> (\<forall>s'. requests (final (finally_block P s')) = requests s')"
proof -
  let ?s1 = "s\<lparr>logged := logged s @ fetch_log r s,
               requests := requests s @ [page_request P s]\<rparr>"
  note it = iteration_error [OF assms(1,3), of P]
  have q: "sigint ?s1 = None" using assms(1) by simp
  have c1: "error_thold P + 5 \<le> error_count s + 1 \<longrightarrow>
        while_loop P (r # rs) s
        = Done ()
            (s\<lparr>error_count := error_count s + 1,
               logged := logged s @ fetch_log r s @ [(ERROR, ErrorOnPage (page s) e)],
               requests := requests s @ [page_request P s]\<rparr>)"
    using assms(2) by (simp add: it on_fetch_error_plain [OF q])
  have c2: "error_count s + 1 \<noteq> error_thold P \<and> error_count s + 1 < error_thold P + 5 \<longrightarrow>
        iteration P (Some r) s
        = Done Continue
            (s\<lparr>error_count := error_count s + 1,
               logged := logged s @ fetch_log r s @ [(ERROR, ErrorOnPage (page s) e)],
               requests := requests s @ [page_request P s]\<rparr>)"
    by (simp add: it on_fetch_error_plain [OF q])
  have c3: "error_count s + 1 = error_thold P \<and> auth_replies s = a # rest \<and> auth_grant a = None \<longrightarrow>
        (\<exists>s'. while_loop P (r # rs) s = Done () s'
              \<and> requests s' = requests s @ [page_request P s, TokenPost (ref_token s)]
              \<and> error_count s' = error_thold P \<and> auth_replies s' = rest)"
  proof
    assume h: "error_count s + 1 = error_thold P \<and> auth_replies s = a # rest \<and> auth_grant a = None"
    then have h': "error_count ?s1 + 1 = error_thold P" "auth_replies ?s1 = a # rest"
      "auth_grant a = None" by simp_all
    from on_fetch_error_reauth_fail [OF q h', of e] obtain e' lg where
      "on_fetch_error P e ?s1
           = Done Break
               (?s1\<lparr>error_count := error_count ?s1 + 1, auth_replies := rest,
                  logged := logged ?s1 @ (ERROR, ErrorOnPage (page ?s1) e) # lg
                            @ [(WARNING, UnableToAcquireAccessToken e')],
                  requests := requests ?s1 @ [TokenPost (ref_token ?s1)]\<rparr>)"
      by blast
    then show "\<exists>s'. while_loop P (r # rs) s = Done () s'
              \<and> requests s' = requests s @ [page_request P s, TokenPost (ref_token s)]
              \<and> error_count s' = error_thold P \<and> auth_replies s' = rest"
      using assms(2) h by (simp add: it)
  qed
  have c4: "error_count s + 1 = error_thold P \<and> auth_replies s = a # rest
          \<and> auth_grant a = Some (tt, at, rt) \<longrightarrow>
        (\<exists>s'. iteration P (Some r) s = Done Continue s'
              \<and> requests s' = requests s @ [page_request P s, TokenPost (ref_token s)]
              \<and> token_type s' = tt \<and> access_token s' = at \<and> ref_token s' = rt
              \<and> error_count s' = error_thold P \<and> auth_replies s' = rest)"
  proof
    assume h: "error_count s + 1 = error_thold P \<and> auth_replies s = a # rest
          \<and> auth_grant a = Some (tt, at, rt)"
    then have h': "error_count ?s1 + 1 = error_thold P" "auth_replies ?s1 = a # rest"
      "auth_grant a = Some (tt, at, rt)" by simp_all
    from on_fetch_error_reauth_ok [OF q h', of e] obtain cf lg where
      "on_fetch_error P e ?s1
           = Done Continue
               (?s1\<lparr>token_type := tt, access_token := at, ref_token := rt,
                  error_count := error_count ?s1 + 1, auth_replies := rest, cfiles := cf,
                  logged := logged ?s1 @ (ERROR, ErrorOnPage (page ?s1) e)
                            # (INFO, NewTokenAcquired) # lg,
                  requests := requests ?s1 @ [TokenPost (ref_token ?s1)]\<rparr>)"
      by blast
    then show "\<exists>s'. iteration P (Some r) s = Done Continue s'
              \<and> requests s' = requests s @ [page_request P s, TokenPost (ref_token s)]
              \<and> token_type s' = tt \<and> access_token s' = at \<and> ref_token s' = rt
              \<and> error_count s' = error_thold P \<and> auth_replies s' = rest"
      using h by (simp add: it)
  qed
  from c1 c2 c3 c4 finally_block_requests show ?thesis by blast
qed

theorem error_cap_and_reauth_witness:
  "fetch_error (Response 500 None) = Some (RuntimeError (BadResponse 500))
   \<and> dt_gt (date world_started) (start_date params0)
   \<and> while_loop params0 [Response 500 None, Response 200 (Some [item_a])]
       (world_started\<lparr>error_count := 9\<rparr>)
     = Done ()
         (world_started\<lparr>error_count := 10,
            logged := [(INFO, PageInProgress 0),
                       (ERROR, ErrorOnPage 0 (RuntimeError (BadResponse 500)))],
            requests := [ListPost ''Bearer A1'' [(''tag'', ''X'')]]\<rparr>)
   \<and> iteration params0 (Some (Response 500 None)) world_started
     = Done Continue
         (world_started\<lparr>error_count := 1,
            logged := [(INFO, PageInProgress 0),
                       (ERROR, ErrorOnPage 0 (RuntimeError (BadResponse 500)))],
            requests := [ListPost ''Bearer A1'' [(''tag'', ''X'')]]\<rparr>)
   \<and> auth_grant (Response 401 None) = None
   \<and> (\<exists>s'. while_loop params0 [Response 500 None, Response 200 (Some [item_a])]
              (world_started\<lparr>error_count := 4, auth_replies := [Response 401 None]\<rparr>)
            = Done () s'
          \<and> requests s' = [ListPost ''Bearer A1'' [(''tag'', ''X'')], TokenPost ''R1'']
          \<and> error_count s' = 5)
   \<and> auth_grant (Response 200 (Some [(''token_type'', ''Bearer''), (''access_token'', ''A2''),
                                      (''refresh_token'', ''R2'')]))
     = Some (''Bearer'', ''A2'', ''R2'')
   \<and> (\<exists>s'. iteration params0 (Some (Response 500 None))
              (world_started\<lparr>error_count := 4,
                 auth_replies := [Response 200 (Some [(''token_type'', ''Bearer''),
                                    (''access_token'', ''A2''), (''refresh_token'', ''R2'')])]\<rparr>)
            = Done Continue s'
          \<and> requests s' = [ListPost ''Bearer A1'' [(''tag'', ''X'')], TokenPost ''R1'']
          \<and> token_type s' = ''Bearer'' \<and> access_token s' = ''A2'' \<and> ref_token s' = ''R2''
          \<and> error_count s' = 5)"
proof -
  let ?r = "Response 500 None :: item list http"
  let ?e = "RuntimeError (BadResponse 500)"
  let ?rs = "[Response 200 (Some [item_a])]"
  let ?ok = "Response 200 (Some [(''token_type'', ''Bearer''), (''access_token'', ''A2''),
                                 (''refresh_token'', ''R2'')])"
  let ?w1 = "world_started\<lparr>error_count := 9\<rparr>"
  let ?w2 = "world_started\<lparr>error_count := 4, auth_replies := [Response 401 None]\<rparr>"
  let ?w3 = "world_started\<lparr>error_count := 4, auth_replies := [?ok]\<rparr>"
  have f: "fetch_error ?r = Some ?e" by (simp add: fetch_error_def)
  have g2: "auth_grant (Response 401 None) = None" by (simp add: auth_grant_def)
  have g3: "auth_grant ?ok = Some (''Bearer'', ''A2'', ''R2'')" by (simp add: auth_grant_def)
  have q: "sigint ?w1 = None" "sigint ?w2 = None" "sigint ?w3 = None"
    using world_started_quiet by simp_all
  have d: "dt_gt (date ?w1) (start_date params0)" "dt_gt (date ?w2) (start_date params0)"
    "dt_gt (date ?w3) (start_date params0)"
    using world_started_date by simp_all
  have v: "fetch_log ?r ?w1 = [(INFO, PageInProgress 0)]"
    "page_request params0 ?w1 = ListPost ''Bearer A1'' [(''tag'', ''X'')]"
    "page_request params0 ?w2 = ListPost ''Bearer A1'' [(''tag'', ''X'')]"
    "page_request params0 ?w3 = ListPost ''Bearer A1'' [(''tag'', ''X'')]"
    "error_thold params0 = 5" "page ?w1 = 0" "logged ?w1 = []"
    "requests ?w1 = []" "requests ?w2 = []" "requests ?w3 = []"
    "ref_token ?w2 = ''R1''" "ref_token ?w3 = ''R1''"
    by (simp_all add: fetch_log_def page_request_def request_data_def world_started_def
        world0_def params0_def)
  have c1: "while_loop params0 (?r # ?rs) ?w1
     = Done ()
         (world_started\<lparr>error_count := 10,
            logged := [(INFO, PageInProgress 0), (ERROR, ErrorOnPage 0 ?e)],
            requests := [ListPost ''Bearer A1'' [(''tag'', ''X'')]]\<rparr>)"
  proof -
    from error_cap_and_reauth [OF q(1) d(1) f, where rs = ?rs]
    have "error_thold params0 + 5 \<le> error_count ?w1 + 1 \<longrightarrow>
        while_loop params0 (?r # ?rs) ?w1
        = Done ()
            (?w1\<lparr>error_count := error_count ?w1 + 1,
               logged := logged ?w1 @ fetch_log ?r ?w1 @ [(ERROR, ErrorOnPage (page ?w1) ?e)],
               requests := requests ?w1 @ [page_request params0 ?w1]\<rparr>)"
      by blast
    then show ?thesis unfolding v by simp
  qed
  have c2: "\<exists>s'. while_loop params0 (?r # ?rs) ?w2 = Done () s'
          \<and> requests s' = [ListPost ''Bearer A1'' [(''tag'', ''X'')], TokenPost ''R1'']
          \<and> error_count s' = 5"
  proof -
    from error_cap_and_reauth [OF q(2) d(2) f, where rs = ?rs and a = "Response 401 None"
        and rest = "[]"]
    have "error_count ?w2 + 1 = error_thold params0 \<and> auth_replies ?w2 = [Response 401 None]
          \<and> auth_grant (Response 401 None) = None \<longrightarrow>
        (\<exists>s'. while_loop params0 (?r # ?rs) ?w2 = Done () s'
              \<and> requests s' = requests ?w2 @ [page_request params0 ?w2, TokenPost (ref_token ?w2)]
              \<and> error_count s' = error_thold params0 \<and> auth_replies s' = [])"
      by blast
    then show ?thesis unfolding v using g2 by (auto simp del: while_loop.simps)
  qed
  have c3: "\<exists>s'. iteration params0 (Some ?r) ?w3 = Done Continue s'
          \<and> requests s' = [ListPost ''Bearer A1'' [(''tag'', ''X'')], TokenPost ''R1'']
          \<and> token_type s' = ''Bearer'' \<and> access_token s' = ''A2'' \<and> ref_token s' = ''R2''
          \<and> error_count s' = 5"
  proof -
    from error_cap_and_reauth [OF q(3) d(3) f, where a = ?ok and rest = "[]"
        and tt = "''Bearer''" and at = "''A2''" and rt = "''R2''"]
    have "error_count ?w3 + 1 = error_thold params0 \<and> auth_replies ?w3 = [?ok]
          \<and> auth_grant ?ok = Some (''Bearer'', ''A2'', ''R2'') \<longrightarrow>
        (\<exists>s'. iteration params0 (Some ?r) ?w3 = Done Continue s'
              \<and> requests s' = requests ?w3 @ [page_request params0 ?w3, TokenPost (ref_token ?w3)]
              \<and> token_type s' = ''Bearer'' \<and> access_token s' = ''A2'' \<and> ref_token s' = ''R2''
              \<and> error_count s' = error_thold params0 \<and> auth_replies s' = [])"
      by blast
    then show ?thesis unfolding v using g3 by auto
  qed
  have c0: "iteration params0 (Some ?r) world_started
     = Done Continue
         (world_started\<lparr>error_count := 1,
            logged := [(INFO, PageInProgress 0), (ERROR, ErrorOnPage 0 ?e)],
            requests := [ListPost ''Bearer A1'' [(''tag'', ''X'')]]\<rparr>)"
  proof -
    have v0: "fetch_log ?r world_started = [(INFO, PageInProgress 0)]"
      "page_request params0 world_started = ListPost ''Bearer A1'' [(''tag'', ''X'')]"
      "error_count world_started = 0" "page world_started = 0" "logged world_started = []"
      "requests world_started = []"
      by (simp_all add: fetch_log_def page_request_def request_data_def world_started_def
          world0_def params0_def)
    from error_cap_and_reauth [OF world_started_quiet world_started_date f]
    have "error_count world_started + 1 \<noteq> error_thold params0
          \<and> error_count world_started + 1 < error_thold params0 + 5 \<longrightarrow>
        iteration params0 (Some ?r) world_started
        = Done Continue
            (world_started\<lparr>error_count := error_count world_started + 1,
               logged := logged world_started @ fetch_log ?r world_started
                         @ [(ERROR, ErrorOnPage (page world_started) ?e)],
               requests := requests world_started @ [page_request params0 world_started]\<rparr>)"
      by blast
    then show ?thesis unfolding v0 v(5) by simp
  qed
  from f world_started_date c1 c0 g2 c2 g3 c3 show ?thesis by blast
qed

subsection \<open>The first request of a run\<close>

lemma load_data_first:
  assumes "sigint s = None"
    and "evolves s0 (s\<lparr>requests := requests s @ [ListPost (tt @ '' '' @ at)
                                                   (request_data n l tg)]\<rparr>)"
  shows "sound s0 (load_data tt at n l tg reply s)"
  unfolding load_data_def Let_def tick_quiet [OF assms(1)] then_do_simps
  using assms(2)
  by (auto intro!: sound_await sound_then_do sound_logging
        split: http.splits option.splits)

lemma iteration_first:
  assumes "sigint s = None"
  shows "sound (s\<lparr>requests := requests s @ [page_request P s]\<rparr>) (iteration P reply s)"
proof -
  let ?s0 = "s\<lparr>requests := requests s @ [page_request P s]\<rparr>"
  have main: "sound ?s0
       (case load_data (token_type s1) (access_token s1) (page s1) (last_id s1) (symbol P)
               reply s1 of
          Done items s \<Rightarrow> process_page P items s
        | Raised e s \<Rightarrow> if is_Exception e then on_fetch_error P e s else Raised e s
        | Stuck s \<Rightarrow> Stuck s)"
    if q: "sigint s1 = None"
      and e: "evolves ?s0 (s1\<lparr>requests := requests s1 @ [page_request P s1]\<rparr>)"
    for s1
  proof -
    have ld: "sound ?s0 (load_data (token_type s1) (access_token s1) (page s1) (last_id s1)
                 (symbol P) reply s1)"
      by (rule load_data_first [OF q]) (use e in \<open>simp add: page_request_def\<close>)
    then show ?thesis
      by (cases "load_data (token_type s1) (access_token s1) (page s1) (last_id s1)
                 (symbol P) reply s1")
         (auto intro: sound_process_page sound_on_fetch_error simp: is_Exception_def)
  qed
  show ?thesis
  proof (cases "repeat s")
    case True
    have "evolves ?s0 (s\<lparr>requests := requests s @ [page_request P s]\<rparr>)" by simp
    from main [OF assms this] True show ?thesis
      by (simp add: iteration_def)
  next
    case False
    let ?s1 = "s\<lparr>logged := logged s @ [(INFO, PageInProgress (page s))]\<rparr>"
    have p: "page_request P ?s1 = page_request P s" by (simp add: page_request_def)
    have "evolves ?s0 (?s1\<lparr>requests := requests ?s1 @ [page_request P ?s1]\<rparr>)"
      unfolding p by (auto simp: evolves_def reports_def split: option.splits)
    from main [OF _ this] False assms show ?thesis
      by (simp add: iteration_def)
  qed
qed

lemma while_loop_first:
  assumes "sigint s = None" and "dt_gt (date s) (start_date P)"
  shows "sound (s\<lparr>requests := requests s @ [page_request P s]\<rparr>) (while_loop P rs s)"
proof (cases rs)
  case Nil
  show ?thesis
    unfolding Nil while_loop.simps using assms(2)
    by (auto intro!: sound_then_do iteration_first [OF assms(1)])
next
  case (Cons r rs')
  show ?thesis
    unfolding Cons while_loop.simps using assms(2)
    by (auto intro!: sound_then_do iteration_first [OF assms(1)] sound_while_loop
          split: signal.splits)
qed

lemma keeps_try_statement_from:
  "keeps s0 (final (guarded P rs s)) \<Longrightarrow> keeps s0 (final (try_statement P rs s))"
  unfolding try_statement_def
  by (intro keeps_try_finally keeps_except_KeyboardInterrupt keeps_finally_block keeps_logging)
     simp_all

lemma scrape_after_prologue:
  assumes "prologue P rt s = Done (Normal ()) s1"
  shows "final (scrape_sahamyab P rt rs s) = final (try_statement P rs s1)"
  using try_statement_returns [of P rs s1]
  by (cases "try_statement P rs s1")
     (auto simp: scrape_sahamyab_def assms split: completion.splits)

lemma numeric_str_canonical: "canonical_id x \<Longrightarrow> numeric_str x = x"
  by (cases x) (auto simp: canonical_id_def is_plain_number_def numeric_str_def)

lemma read_csv_last_id_quiet:
  assumes "sigint s = None" and "disk s path = Some (Header # ls)" and "ls \<noteq> []"
    and "last ls = Row r" and "list_all is_plain_number (map id_field ls)"
    and "canonical_id (r_id r)"
  shows "read_csv_last_id path s = Done (r_id r, True) s"
  using assms
  by (simp add: read_csv_last_id_def id_column_def id_field_def numeric_str_canonical)

lemma prologue_resume:
  assumes "sigint s = None"
    and "disk s (file_name P) = Some (Header # ls)" and "ls \<noteq> []" and "last ls = Row r"
    and "list_all is_plain_number (map id_field ls)" and "canonical_id (r_id r)"
    and "\<not> readonly s (file_name P)"
    and "auth_replies s = a # rest" and "auth_grant a = Some (tt, at, rt')"
  shows "\<exists>cf lg. prologue P rt s
           = Done (Normal ())
               (s\<lparr>last_id := r_id r, numeric_id := True, date := now s, page := 1, token_type := tt,
                  access_token := at, ref_token := rt', error_count := 0, o_mode := ''a'',
                  auth_replies := rest, cfiles := cf, handle := Some (file_name P, []),
                  logged := logged s @ (INFO, NewTokenAcquired) # lg,
                  requests := requests s @ [TokenPost rt]\<rparr>)"
proof -
  let ?s0 = "init_locals rt s"
  have q0: "sigint ?s0 = None" "auth_replies ?s0 = a # rest"
    using assms by (simp_all add: init_locals_def)
  from initial_refresh_granted [OF q0 assms(9), of P] obtain cf lg where
    ir: "initial_refresh P ?s0
         = Done (Normal ())
             (?s0\<lparr>token_type := tt, access_token := at, ref_token := rt', auth_replies := rest,
                  cfiles := cf, logged := logged ?s0 @ (INFO, NewTokenAcquired) # lg,
                  requests := requests ?s0 @ [TokenPost (ref_token ?s0)]\<rparr>)"
    by blast
  let ?s1 = "?s0\<lparr>token_type := tt, access_token := at, ref_token := rt', auth_replies := rest,
                  cfiles := cf, logged := logged ?s0 @ (INFO, NewTokenAcquired) # lg,
                  requests := requests ?s0 @ [TokenPost (ref_token ?s0)]\<rparr>"
  have i0: "sigint ?s0 = None" "disk ?s0 = disk s" "readonly ?s0 = readonly s"
    "page ?s0 = 0"
    using assms(1) by (simp_all add: init_locals_def)
  have d: "disk ?s1 (file_name P) = Some (Header # ls)" "sigint ?s1 = None"
    using assms i0 by simp_all
  have rd: "read_csv_last_id (file_name P) (?s1\<lparr>o_mode := ''a''\<rparr>)
            = Done (r_id r, True) (?s1\<lparr>o_mode := ''a''\<rparr>)"
    by (rule read_csv_last_id_quiet [where ls = ls]) (use d assms in simp_all)
  have cm: "choose_mode P ?s1
            = Done () (?s1\<lparr>o_mode := ''a'', last_id := r_id r, numeric_id := True,
                          page := page ?s1 + 1\<rparr>)"
    using d(1) by (simp add: choose_mode_def rd)
  have idem: "(disk s)(file_name P \<mapsto> Header # ls) = disk s"
    using assms(2) by (simp add: fun_upd_idem)
  have "prologue P rt s
        = Done (Normal ())
            (?s1\<lparr>o_mode := ''a'', last_id := r_id r, numeric_id := True,
                 page := page ?s1 + 1,
                 disk := (disk s)(file_name P \<mapsto> Header # ls),
                 handle := Some (file_name P, [])\<rparr>)"
    unfolding prologue_def ir
    using assms(2,7) i0 by (simp add: cm open_file_def)
  then show ?thesis
    unfolding idem
    by (intro exI [of _ cf] exI [of _ lg]) (simp add: init_locals_def)
qed

subsection \<open>C7: a run that resumes\<close>



lemma prologue_zeros:
  "prologue params0 ''R0'' world_zeros
   = Done (Normal ())
       (world_zeros\<lparr>last_id := ''7'', numeric_id := True, date := now world0, page := 1,
          token_type := ''Bearer'', access_token := ''A1'', ref_token := ''R1'',
          o_mode := ''a'', auth_replies := [], handle := Some (''data.csv'', []),
          logged := [(INFO, NewTokenAcquired),
                     (ERROR, FailedToUpdateRefreshToken FileNotFoundError)],
          requests := [TokenPost ''R0'']\<rparr>)"
  by (simp add: prologue_def initial_refresh_def init_locals_def refresh_token_def
      token_reply_def getitem_def update_config_refresh_token_def read_json_def
      is_Exception_def choose_mode_def read_csv_last_id_def id_column_def id_field_def
      is_plain_number_def is_digit_def numeric_str_def open_file_def
      world_zeros_def world0_def params0_def Let_def fun_upd_idem)


subsection \<open>The configuration file is absent\<close>

lemma strptime_default:
  "strptime_ymd ''2020-08-01''
   = Inr \<lparr>year = 2020, month = 8, day = 1, hour = 0, minute = 0, second = 0, microsecond = 0\<rparr>"
  by code_simp

lemma main_absent:
  assumes "sigint s = None" and "cfiles s ''config.json'' = Absent"
    and "\<not> readonly s ''config.json''"
  shows "main rs s
         = scrape_sahamyab default_params [] rs
             (s\<lparr>cfiles := (cfiles s)(''config.json'' := Object default_config),
                logged := logged s @ [(INFO, DefaultConfigCreated)]\<rparr>)"
proof -
  have g: "config_get (Object default_config) ''start_date'' = Inr (JStr ''2020-08-01'')"
    "config_get (Object default_config) ''file_name'' = Inr (JStr ''data.csv'')"
    "config_get (Object default_config) ''symbol'' = Inr (JStr default_symbol)"
    "config_get (Object default_config) ''ref_token'' = Inr (JStr [])"
    "config_get (Object default_config) ''error_thold'' = Inr (JInt 5)"
    by (simp_all add: config_get_def default_config_def getitem_def)
  have l: "load_config ''config.json'' s
           = Done (Object default_config)
               (s\<lparr>cfiles := (cfiles s)(''config.json'' := Object default_config),
                  logged := logged s @ [(INFO, DefaultConfigCreated)]\<rparr>)"
    using assms by (simp add: load_config_def read_json_def write_json_def)
  show ?thesis
    by (simp add: main_def l g as_str_def int_of_jval_def strptime_default default_params_def)
qed

lemma run_default:
  "main [Response 200 (Some [item_b])] world_granted
   = Done ()
       (world_granted\<lparr>last_id := ''40'', date := r_time row_b, page := 1,
          token_type := ''Bearer'', access_token := ''A1'', ref_token := ''R1'',
          error_count := 0, o_mode := ''w'', repeat := False, auth_replies := [],
          cfiles := (\<lambda>_. Absent)
            (''config.json'' := Object (AList.update ''ref_token'' (JStr ''R1'') default_config)),
          disk := (\<lambda>_. None)(''data.csv'' \<mapsto> [Header, Row row_b]), handle := None,
          logged := [(INFO, DefaultConfigCreated), (INFO, NewTokenAcquired),
                     (INFO, RefreshTokenUpdated),
                     (INFO, PageInProgress 0), (INFO, StatusCode 200),
                     (INFO, PageSuccess 0 (r_time row_b)), (INFO, Dashes),
                     (INFO, FileClosed ''data.csv'')],
          requests := [TokenPost [], ListPost ''Bearer A1'' [(''tag'', default_symbol)]]\<rparr>)"
proof -
  have a: "sigint world_granted = None" "cfiles world_granted ''config.json'' = Absent"
    "\<not> readonly world_granted ''config.json''"
    by (simp_all add: world_granted_def world0_def)
  show ?thesis
    unfolding main_absent [OF a]
    using dt_gt_now dt_gt_row_b
    by (simp add: scrape_sahamyab_def prologue_def initial_refresh_def init_locals_def
        refresh_token_def token_reply_def getitem_def update_config_refresh_token_def
        read_json_def write_json_def setitem_def is_Exception_def choose_mode_def open_file_def
        try_statement_def guarded_def write_line_def iteration_def load_data_def
        request_data_def process_page_def last_of_def item_b_fields [unfolded getitem_def]
        row_b_id make_row_item_b
        except_KeyboardInterrupt_def try_finally_def finally_block_def close_file_def
        world_granted_def world0_def params0_def default_params_def Let_def)
qed

subsection \<open>C3: no configuration file\<close>




subsection \<open>The loop on pages that go back in time\<close>

lemma while_loop_stop: "\<not> dt_gt (date s) (start_date P) \<Longrightarrow> while_loop P rs s = Done () s"
  by (cases rs) simp_all

lemma iteration_new_props:
  assumes "sigint s = None" and "handle s = Some (p, buf)"
    and "map make_row items = map Inr rows" and "rows \<noteq> []"
    and "r_id (last rows) \<noteq> last_id s"
  shows "\<exists>s1. iteration P (Some (Response 200 (Some items))) s = Done Continue s1
           \<and> sigint s1 = None \<and> handle s1 = Some (p, buf @ map Row rows)
           \<and> last_id s1 = r_id (last rows) \<and> date s1 = r_time (last rows)
           \<and> page s1 = page s + 1"
  using iteration_new [OF assms, of P] assms(1) by simp

lemma loop_from:
  assumes pages: "\<And>n. map make_row (pg n) = map Inr (rw n)" "\<And>n. rw n \<noteq> []"
    and decr: "\<And>n. dt_gt (r_time (last (rw n))) (start_date P) \<Longrightarrow>
                 r_id (last (rw (Suc n))) \<noteq> r_id (last (rw n))
                 \<and> dt_gt (r_time (last (rw n))) (r_time (last (rw (Suc n))))"
  shows "sigint s = None \<Longrightarrow> handle s = Some (p, buf) \<Longrightarrow>
         last_id s = r_id (last (rw i)) \<Longrightarrow> date s = r_time (last (rw i)) \<Longrightarrow>
         \<exists>k s'. (\<forall>rest. while_loop P (map (\<lambda>n. Response 200 (Some (pg n))) [Suc i..<Suc i + k]
                                       @ rest) s = Done () s')
               \<and> \<not> dt_gt (date s') (start_date P)
               \<and> date s' = r_time (last (rw (i + k)))
               \<and> page s' = page s + k
               \<and> (\<forall>n<k. dt_gt (r_time (last (rw (i + n)))) (start_date P))"
proof (induction "dt_key (date s)" arbitrary: s i buf rule: less_induct)
  case less
  show ?case
  proof (cases "dt_gt (date s) (start_date P)")
    case False
    then have "\<forall>rest. while_loop P (map (\<lambda>n. Response 200 (Some (pg n))) [Suc i..<Suc i + 0]
                                       @ rest) s = Done () s"
      by (simp add: while_loop_stop)
    with False less.prems show ?thesis
      by (intro exI [of _ 0] exI [of _ s]) simp
  next
    case True
    with less.prems have after: "dt_gt (r_time (last (rw i))) (start_date P)" by simp
    note d = decr [OF after]
    from d less.prems have fresh: "r_id (last (rw (Suc i))) \<noteq> last_id s" by simp
    from iteration_new_props [OF less.prems(1,2) pages(1) pages(2) fresh, of P]
    obtain s1 where it: "iteration P (Some (Response 200 (Some (pg (Suc i))))) s = Done Continue s1"
      and q1: "sigint s1 = None"
      and h1: "handle s1 = Some (p, buf @ map Row (rw (Suc i)))"
      and l1: "last_id s1 = r_id (last (rw (Suc i)))"
      and d1: "date s1 = r_time (last (rw (Suc i)))"
      and p1: "page s1 = page s + 1"
      by blast
    have lt: "dt_key (date s1) < dt_key (date s)"
      using d less.prems(4) d1 by (simp add: dt_gt_def)
    from less.hyps [OF lt q1 h1 l1 d1] obtain k s' where
      run: "\<forall>rest. while_loop P (map (\<lambda>n. Response 200 (Some (pg n)))
                                  [Suc (Suc i)..<Suc (Suc i) + k] @ rest) s1 = Done () s'"
      and stop: "\<not> dt_gt (date s') (start_date P)"
      and dat: "date s' = r_time (last (rw (Suc i + k)))"
      and pag: "page s' = page s1 + k"
      and all: "\<forall>n<k. dt_gt (r_time (last (rw (Suc i + n)))) (start_date P)"
      by blast
    have u: "[Suc i..<Suc i + Suc k] = Suc i # [Suc (Suc i)..<Suc (Suc i) + k]"
      by (simp add: upt_conv_Cons)
    have run': "\<forall>rest. while_loop P (map (\<lambda>n. Response 200 (Some (pg n)))
                                   [Suc i..<Suc i + Suc k] @ rest) s = Done () s'"
      unfolding u using True it run by simp
    have all': "\<forall>n<Suc k. dt_gt (r_time (last (rw (i + n)))) (start_date P)"
    proof (intro allI impI)
      fix n assume "n < Suc k"
      then show "dt_gt (r_time (last (rw (i + n)))) (start_date P)"
        using after all by (cases n) simp_all
    qed
    show ?thesis
      using run' stop dat pag p1 all'
      by (intro exI [of _ "Suc k"] exI [of _ s']) simp
  qed
qed

lemma loop_on_pages:
  assumes "sigint s = None" and "handle s = Some (p, buf)"
    and pages: "\<forall>n. map make_row (pg n) = map Inr (rw n) \<and> rw n \<noteq> []"
    and first: "r_id (last (rw 0)) \<noteq> last_id s"
    and decr: "\<forall>n. dt_gt (r_time (last (rw n))) (start_date P) \<longrightarrow>
                 r_id (last (rw (Suc n))) \<noteq> r_id (last (rw n))
                 \<and> dt_gt (r_time (last (rw n))) (r_time (last (rw (Suc n))))"
  shows "\<exists>k s'. (\<forall>rest. while_loop P (map (\<lambda>n. Response 200 (Some (pg n))) [0..<k] @ rest) s
                         = Done () s')
               \<and> \<not> dt_gt (date s') (start_date P)
               \<and> date s' = (if k = 0 then date s else r_time (last (rw (k - 1))))
               \<and> page s' = page s + k
               \<and> (\<forall>n<k. dt_gt (if n = 0 then date s else r_time (last (rw (n - 1))))
                           (start_date P))"
proof (cases "dt_gt (date s) (start_date P)")
  case False
  then have "\<forall>rest. while_loop P (map (\<lambda>n. Response 200 (Some (pg n))) [0..<0] @ rest) s
                    = Done () s"
    by (simp add: while_loop_stop)
  with False show ?thesis
    by (intro exI [of _ 0] exI [of _ s]) simp
next
  case True
  have pg1: "\<And>n. map make_row (pg n) = map Inr (rw n)" and pg2: "\<And>n. rw n \<noteq> []"
    using pages by simp_all
  have dec: "\<And>n. dt_gt (r_time (last (rw n))) (start_date P) \<Longrightarrow>
                 r_id (last (rw (Suc n))) \<noteq> r_id (last (rw n))
                 \<and> dt_gt (r_time (last (rw n))) (r_time (last (rw (Suc n))))"
    using decr by simp
  from iteration_new_props [OF assms(1,2) pg1 pg2 first, of P]
  obtain s1 where it: "iteration P (Some (Response 200 (Some (pg 0)))) s = Done Continue s1"
    and q1: "sigint s1 = None"
    and h1: "handle s1 = Some (p, buf @ map Row (rw 0))"
    and l1: "last_id s1 = r_id (last (rw 0))"
    and d1: "date s1 = r_time (last (rw 0))"
    and p1: "page s1 = page s + 1"
    by blast
  from loop_from [of pg rw P, OF pg1 pg2 dec q1 h1 l1 d1] obtain k s' where
    run: "\<forall>rest. while_loop P (map (\<lambda>n. Response 200 (Some (pg n))) [Suc 0..<Suc 0 + k] @ rest) s1
                 = Done () s'"
    and stop: "\<not> dt_gt (date s') (start_date P)"
    and dat: "date s' = r_time (last (rw (0 + k)))"
    and pag: "page s' = page s1 + k"
    and all: "\<forall>n<k. dt_gt (r_time (last (rw (0 + n)))) (start_date P)"
    by blast
  have u: "[0..<Suc k] = 0 # [Suc 0..<Suc 0 + k]"
    by (simp add: upt_conv_Cons)
  have run': "\<forall>rest. while_loop P (map (\<lambda>n. Response 200 (Some (pg n))) [0..<Suc k] @ rest) s
                    = Done () s'"
    unfolding u using True it run by simp
  have all': "\<forall>n<Suc k. dt_gt (if n = 0 then date s else r_time (last (rw (n - 1))))
                           (start_date P)"
  proof (intro allI impI)
    fix n assume "n < Suc k"
    then show "dt_gt (if n = 0 then date s else r_time (last (rw (n - 1)))) (start_date P)"
      using True all by (cases n) simp_all
  qed
  show ?thesis
    using run' stop dat pag p1 all'
    by (intro exI [of _ "Suc k"] exI [of _ s']) simp
qed

subsection \<open>C5: the loop ends when the pages go back in time\<close>

text \<open>
  C5. The claim measures a page by its newest record; the code measures it by its last
  one (\<open>date\<close> is the time of the last row written). With that amendment the claim holds.
  Let the content endpoint answer the \<open>n\<close>-th request with the page \<open>pg n\<close>, whose items
  convert to the rows \<open>rw n\<close>, at least one; let the last id of the first page differ
  from \<open>last_id\<close>; and, as long as the last row of a page is after the start date, let
  the last row of the next page have another id and a strictly earlier time. Then, with
  the destination open and no Ctrl-C pending, the loop ends after some number \<open>k\<close> of
  requests, whatever the endpoint would answer later: \<open>date\<close> was after the start date
  before each of the \<open>k\<close> passes, and after the last one it is the time of the last
  row of the last page, which is not after the start date.
\<close>

theorem loop_terminates:
  assumes "sigint s = None" and "handle s = Some (p, buf)"
    and "\<forall>n. map make_row (pg n) = map Inr (rw n) \<and> rw n \<noteq> []"
    and "r_id (last (rw 0)) \<noteq> last_id s"
    and "\<forall>n. dt_gt (r_time (last (rw n))) (start_date P) \<longrightarrow>
             r_id (last (rw (Suc n))) \<noteq> r_id (last (rw n))
             \<and> dt_gt (r_time (last (rw n))) (r_time (last (rw (Suc n))))"
  shows "\<exists>k s'. (\<forall>rest. while_loop P (map (\<lambda>n. Response 200 (Some (pg n))) [0..<k] @ rest) s
                         = Done () s')
               \<and> \<not> dt_gt (date s') (start_date P)
               \<and> date s' = (if k = 0 then date s else r_time (last (rw (k - 1))))
               \<and> page s' = page s + k
               \<and> (\<forall>n<k. dt_gt (if n = 0 then date s else r_time (last (rw (n - 1))))
                           (start_date P))"
  using assms by (rule loop_on_pages)

lemma dt_gt_row_a: "dt_gt (r_time row_a) (start_date params0)"
  by code_simp

theorem loop_terminates_witness:
  "sigint world_started = None \<and> handle world_started = Some (''data.csv'', [])
   \<and> r_id (last (rows_ab 0)) \<noteq> last_id world_started
   \<and> (\<exists>s'. (\<forall>rest. while_loop params0
                        ([Response 200 (Some [item_a]), Response 200 (Some [item_b])] @ rest)
                        world_started = Done () s')
          \<and> \<not> dt_gt (date s') (start_date params0)
          \<and> date s' = r_time row_b \<and> page s' = 2)"
proof -
  have h1: "sigint world_started = None" and h2: "handle world_started = Some (''data.csv'', [])"
    and pg: "page world_started = 0"
    by (simp_all add: world_started_def world0_def)
  have h3: "\<forall>n. map make_row (pages_ab n) = map Inr (rows_ab n) \<and> rows_ab n \<noteq> []"
    by (simp add: pages_ab_def rows_ab_def make_row_item_a make_row_item_b)
  have h4: "r_id (last (rows_ab 0)) \<noteq> last_id world_started"
    by (simp add: rows_ab_def row_a_id world_started_def world0_def)
  have h5: "\<forall>n. dt_gt (r_time (last (rows_ab n))) (start_date params0) \<longrightarrow>
             r_id (last (rows_ab (Suc n))) \<noteq> r_id (last (rows_ab n))
             \<and> dt_gt (r_time (last (rows_ab n))) (r_time (last (rows_ab (Suc n))))"
    using dt_gt_row_b dt_gt_row_a_row_b
    by (simp add: rows_ab_def row_a_id row_b_id)
  from loop_terminates [OF h1 h2 h3 h4 h5] obtain k s' where
    run: "\<forall>rest. while_loop params0 (map (\<lambda>n. Response 200 (Some (pages_ab n))) [0..<k] @ rest)
                  world_started = Done () s'"
    and stop: "\<not> dt_gt (date s') (start_date params0)"
    and dat: "date s' = (if k = 0 then date world_started
                         else r_time (last (rows_ab (k - 1))))"
    and pag: "page s' = page world_started + k"
    and all: "\<forall>n<k. dt_gt (if n = 0 then date world_started
                               else r_time (last (rows_ab (n - 1)))) (start_date params0)"
    by blast
  have k0: "k \<noteq> 0"
    using stop dat world_started_date by (auto split: if_splits)
  have k1: "k \<noteq> 1"
    using stop dat dt_gt_row_a by (auto simp: rows_ab_def split: if_splits)
  have k3: "\<not> 2 < k"
  proof
    assume "2 < k"
    with all have "dt_gt (r_time (last (rows_ab (2 - 1)))) (start_date params0)"
      by (metis zero_neq_numeral)
    then show False using dt_gt_row_b by (simp add: rows_ab_def)
  qed
  from k0 k1 k3 have k: "k = 2" by arith
  have u: "map (\<lambda>n. Response 200 (Some (pages_ab n))) [0..<2]
           = [Response 200 (Some [item_a]), Response 200 (Some [item_b])]"
    by (simp add: upt_rec pages_ab_def)
  have "\<exists>s'. (\<forall>rest. while_loop params0
                        ([Response 200 (Some [item_a]), Response 200 (Some [item_b])] @ rest)
                        world_started = Done () s')
          \<and> \<not> dt_gt (date s') (start_date params0)
          \<and> date s' = r_time row_b \<and> page s' = 2"
    using run stop dat pag unfolding k u
    by (intro exI [of _ s']) (simp add: pg rows_ab_def)
  with h1 h2 h4 show ?thesis by blast
qed

lemma loop_two_records:
  "while_loop params0 [Response 200 (Some [item_a, item_b]), Response 200 (Some [item_b])]
     world_started
   = Done ()
       (world_started\<lparr>last_id := ''40'', date := r_time row_b, page := 1,
          handle := Some (''data.csv'', [Row row_a, Row row_b]),
          logged := [(INFO, PageInProgress 0), (INFO, StatusCode 200),
                     (INFO, PageSuccess 0 (r_time row_b)), (INFO, Dashes)],
          requests := [ListPost ''Bearer A1'' [(''tag'', ''X'')]]\<rparr>)"
proof -
  have h1: "sigint world_started = None" and h2: "handle world_started = Some (''data.csv'', [])"
    by (simp_all add: world_started_def world0_def)
  have h3: "map make_row [item_a, item_b] = map Inr [row_a, row_b]"
    by (simp add: make_row_item_a make_row_item_b)
  have h4: "[row_a, row_b] \<noteq> []" by simp
  have h5: "r_id (last [row_a, row_b]) \<noteq> last_id world_started"
    by (simp add: row_b_id world_started_def world0_def)
  show ?thesis
    using world_started_date dt_gt_row_b
    by (simp add: iteration_new [OF h1 h2 h3 h4 h5] row_b_id)
       (simp add: world_started_def world0_def params0_def request_data_def)
qed

text \<open>The claim as it was written fails on a page of two records sent newest first, the
  first after the boundary and the second before it: the loop ends after this page,
  although its newest record is after the boundary.\<close>

theorem loop_stops_on_last_record:
  "map make_row [item_a, item_b] = [Inr row_a, Inr row_b]
   \<and> dt_gt (r_time row_a) (start_date params0)
   \<and> (\<exists>s'. while_loop params0
              [Response 200 (Some [item_a, item_b]), Response 200 (Some [item_b])] world_started
            = Done () s'
          \<and> requests s' = [ListPost ''Bearer A1'' [(''tag'', ''X'')]]
          \<and> date s' = r_time row_b)"
proof -
  have "map make_row [item_a, item_b] = [Inr row_a, Inr row_b]"
    by (simp add: make_row_item_a make_row_item_b)
  moreover have "\<exists>s'. while_loop params0
              [Response 200 (Some [item_a, item_b]), Response 200 (Some [item_b])] world_started
            = Done () s'
          \<and> requests s' = [ListPost ''Bearer A1'' [(''tag'', ''X'')]]
          \<and> date s' = r_time row_b"
    unfolding loop_two_records by simp
  ultimately show ?thesis using dt_gt_row_a by blast
qed

end
